theory Spec2Isabelle
  imports Complex_Main "HOL-Library.Multiset" "HOL-Library.Product_Lexorder"
begin

section \<open>Text\<close>

text \<open>
  A character of an input text is a code point below 256, a HOL \<open>char\<close>; the tables
  below are those of Python's \<open>str\<close> on these code points. \<open>is_space\<close> is
  \<open>str.isspace\<close> (what \<open>str.strip()\<close> removes and what \<open>\s\<close> matches), \<open>is_digit\<close>
  is \<open>\d\<close>, \<open>is_letter\<close> is the class \<open>[A-Z]\<close> of a pattern that ignores case. Under
  \<open>re.IGNORECASE\<close> a literal ASCII letter matches its two cases and no other code point
  below 256, so a literal is matched by comparing the lower-cased text.
\<close>

definition is_space :: "char \<Rightarrow> bool" where
  "is_space c = (c \<in> set [CHR 0x09, CHR 0x0A, CHR 0x0B, CHR 0x0C, CHR 0x0D,
                            CHR 0x1C, CHR 0x1D, CHR 0x1E, CHR 0x1F, CHR 0x20,
                            CHR 0x85, CHR 0xA0])"

definition is_digit :: "char \<Rightarrow> bool" where
  "is_digit c = (c \<in> set ''0123456789'')"

definition is_letter :: "char \<Rightarrow> bool" where
  "is_letter c = (c \<in> set ''ABCDEFGHIJKLMNOPQRSTUVWXYZabcdefghijklmnopqrstuvwxyz'')"

text \<open>
  The letters with a lower-case and an upper-case form below 256: the 26 of ASCII and
  the 30 from \<open>U+00C0\<close> to \<open>U+00DE\<close> without the multiplication sign, whose lower-case
  forms are 32 code points higher.
\<close>

definition upper_letters :: string where
  "upper_letters =
     ''ABCDEFGHIJKLMNOPQRSTUVWXYZ'' @
     [CHR 0xC0, CHR 0xC1, CHR 0xC2, CHR 0xC3, CHR 0xC4, CHR 0xC5, CHR 0xC6, CHR 0xC7,
      CHR 0xC8, CHR 0xC9, CHR 0xCA, CHR 0xCB, CHR 0xCC, CHR 0xCD, CHR 0xCE, CHR 0xCF,
      CHR 0xD0, CHR 0xD1, CHR 0xD2, CHR 0xD3, CHR 0xD4, CHR 0xD5, CHR 0xD6, CHR 0xD8,
      CHR 0xD9, CHR 0xDA, CHR 0xDB, CHR 0xDC, CHR 0xDD, CHR 0xDE]"

definition lower_letters :: string where
  "lower_letters =
     ''abcdefghijklmnopqrstuvwxyz'' @
     [CHR 0xE0, CHR 0xE1, CHR 0xE2, CHR 0xE3, CHR 0xE4, CHR 0xE5, CHR 0xE6, CHR 0xE7,
      CHR 0xE8, CHR 0xE9, CHR 0xEA, CHR 0xEB, CHR 0xEC, CHR 0xED, CHR 0xEE, CHR 0xEF,
      CHR 0xF0, CHR 0xF1, CHR 0xF2, CHR 0xF3, CHR 0xF4, CHR 0xF5, CHR 0xF6, CHR 0xF8,
      CHR 0xF9, CHR 0xFA, CHR 0xFB, CHR 0xFC, CHR 0xFD, CHR 0xFE]"

text \<open>\<open>str.lower()\<close>: it stays below 256.\<close>

definition lower_char :: "char \<Rightarrow> char" where
  "lower_char c = (case map_of (zip upper_letters lower_letters) c of Some d \<Rightarrow> d | None \<Rightarrow> c)"

definition lower :: "string \<Rightarrow> string" where
  "lower s = map lower_char s"

text \<open>
  \<open>str.upper()\<close> does not stay below 256: the sharp s becomes \<open>SS\<close>, the micro sign
  becomes \<open>U+039C\<close> and the y with diaeresis \<open>U+0178\<close>. Its result is a list of code
  points, each below 256 (\<open>Latin1\<close>) or given by its number (\<open>Wide\<close>).
\<close>

datatype codepoint = Latin1 char | Wide nat

definition latin1 :: "string \<Rightarrow> codepoint list" where
  "latin1 s = map Latin1 s"

definition upper_char :: "char \<Rightarrow> codepoint list" where
  "upper_char c =
     (case map_of (zip lower_letters upper_letters) c of
        Some d \<Rightarrow> [Latin1 d]
      | None \<Rightarrow>
          if c = CHR 0xDF then [Latin1 CHR ''S'', Latin1 CHR ''S'']
          else if c = CHR 0xB5 then [Wide 0x39C]
          else if c = CHR 0xFF then [Wide 0x178]
          else [Latin1 c])"

definition upper :: "string \<Rightarrow> codepoint list" where
  "upper s = concat (map upper_char s)"

text \<open>
  A text is upper-cased when \<open>str.upper()\<close> leaves it as it is, that is when each of its
  code points is its own upper-case form. Of the code points from 256 on, only the two that
  \<open>upper\<close> produces are considered; both are capital letters.
\<close>

definition upper_cased :: "codepoint list \<Rightarrow> bool" where
  "upper_cased t =
     list_all (\<lambda>cp. case cp of Latin1 c \<Rightarrow> upper_char c = [Latin1 c]
                               | Wide n \<Rightarrow> n = 0x39C \<or> n = 0x178) t"

definition strip :: "string \<Rightarrow> string" where
  "strip s = rev (dropWhile is_space (rev (dropWhile is_space s)))"

text \<open>\<open>s.startswith(p)\<close>, \<open>s.endswith(p)\<close> and \<open>p in s\<close>.\<close>

fun startswith :: "string \<Rightarrow> string \<Rightarrow> bool" where
  "startswith s [] = True"
| "startswith [] (p # ps) = False"
| "startswith (c # cs) (p # ps) = (c = p \<and> startswith cs ps)"

definition endswith :: "string \<Rightarrow> string \<Rightarrow> bool" where
  "endswith s p = startswith (rev s) (rev p)"

fun contains :: "string \<Rightarrow> string \<Rightarrow> bool" where
  "contains p [] = (p = [])"
| "contains p (c # cs) = (startswith (c # cs) p \<or> contains p cs)"

text \<open>\<open>norm(s) = (s or "").strip().lower()\<close>\<close>

definition norm :: "string \<Rightarrow> string" where
  "norm s = lower (strip s)"

section \<open>Configuration\<close>

definition NALCO_URL :: string where
  "NALCO_URL = ''https://nalcoindia.com/domestic/current-price/''"

text \<open>
  \<open>DATEY_PDF_RE = re.compile(r"Ingot-(\d{2})-(\d{2})-(\d{4})\.pdf$", re.IGNORECASE)\<close>,
  used with \<open>search\<close>. The pattern has a fixed length of 20 characters and ends at \<open>$\<close>,
  which stands at the end of the string or before a newline that ends the string; a match
  ends in \<open>f\<close> or \<open>F\<close>, so there is exactly one place where it can stand. The result is the
  three groups.
\<close>

definition all_digits :: "string \<Rightarrow> bool" where
  "all_digits s = list_all is_digit s"

definition datey_at :: "string \<Rightarrow> (string \<times> string \<times> string) option" where
  "datey_at m =
     (if length m = 20 \<and> lower (take 6 m) = ''ingot-''
         \<and> all_digits (take 2 (drop 6 m)) \<and> take 1 (drop 8 m) = ''-''
         \<and> all_digits (take 2 (drop 9 m)) \<and> take 1 (drop 11 m) = ''-''
         \<and> all_digits (take 4 (drop 12 m)) \<and> lower (drop 16 m) = ''.pdf''
      then Some (take 2 (drop 6 m), take 2 (drop 9 m), take 4 (drop 12 m))
      else None)"

definition DATEY_PDF_RE_search :: "string \<Rightarrow> (string \<times> string \<times> string) option" where
  "DATEY_PDF_RE_search s =
     (let t = (if s \<noteq> [] \<and> last s = CHR 0x0A then butlast s else s)
      in datey_at (drop (length t - 20) t))"

section \<open>DocumentLocator\<close>

text \<open>
  The page as BeautifulSoup parses it: a forest of tags, text and other nodes (comments,
  which \<open>get_text()\<close> leaves out). A tag has a name, its attributes and its children.
\<close>

datatype node =
    Text string
  | Comment string
  | Tag string "(string \<times> string) list" "node list"

definition attr :: "node \<Rightarrow> string \<Rightarrow> string option" where
  "attr n k = (case n of Tag _ kvs _ \<Rightarrow> map_of kvs k | _ \<Rightarrow> None)"

fun get_text :: "node \<Rightarrow> string" where
  "get_text (Text s) = s"
| "get_text (Comment s) = []"
| "get_text (Tag nm kvs kids) = concat (map get_text kids)"

text \<open>
  The tags of the page in document order, each paired with the chain of its ancestors,
  nearest first (what \<open>find_parent\<close> walks); \<open>find_all(name)\<close> keeps those of one name.
\<close>

fun tags_in :: "node list \<Rightarrow> node \<Rightarrow> (node \<times> node list) list" where
  "tags_in anc (Text s) = []"
| "tags_in anc (Comment s) = []"
| "tags_in anc (Tag t kvs kids) =
     (Tag t kvs kids, anc) # concat (map (tags_in (Tag t kvs kids # anc)) kids)"

definition all_tags :: "node list \<Rightarrow> (node \<times> node list) list" where
  "all_tags soup = concat (map (tags_in []) soup)"

definition tag_name :: "node \<Rightarrow> string" where
  "tag_name n = (case n of Tag t kvs kids \<Rightarrow> t | _ \<Rightarrow> [])"

definition find_all :: "string \<Rightarrow> node list \<Rightarrow> (node \<times> node list) list" where
  "find_all nm soup = filter (\<lambda>ta. tag_name (fst ta) = nm) (all_tags soup)"

text \<open>\<open>find_all("a", href=True)\<close>\<close>

definition is_a_href :: "node \<Rightarrow> bool" where
  "is_a_href n = (tag_name n = ''a'' \<and> attr n ''href'' \<noteq> None)"

definition find_all_a_href :: "node list \<Rightarrow> node list" where
  "find_all_a_href soup = filter is_a_href (map fst (all_tags soup))"

text \<open>\<open>pnode.find_parent("a", href=True)\<close>: the nearest ancestor that is a link with an href.\<close>

definition find_parent_a_href :: "node list \<Rightarrow> node option" where
  "find_parent_a_href anc = List.find is_a_href anc"

text \<open>\<open>href.lower().endswith(".pdf") and "spec" not in href.lower()\<close>\<close>

definition pdf_not_spec :: "string \<Rightarrow> bool" where
  "pdf_not_spec href = (endswith (lower href) ''.pdf'' \<and> \<not> contains ''spec'' (lower href))"

text \<open>The stripped href of a tag that has one.\<close>

definition href_of :: "node \<Rightarrow> string" where
  "href_of a = strip (case attr a ''href'' of Some h \<Rightarrow> h | None \<Rightarrow> [])"

text \<open>
  The body of the first loop, for one \<open>p\<close> node: the href it accepts, if any.
\<close>

definition strict_href :: "node \<times> node list \<Rightarrow> string option" where
  "strict_href pa =
     (if norm (get_text (fst pa)) = ''ingots'' then
        (case find_parent_a_href (snd pa) of
           None \<Rightarrow> None
         | Some a \<Rightarrow> (if pdf_not_spec (href_of a) then Some (href_of a) else None))
      else None)"

text \<open>The body of the second loop, for one link.\<close>

definition dated_href :: "node \<Rightarrow> string option" where
  "dated_href a =
     (if pdf_not_spec (href_of a) \<and> DATEY_PDF_RE_search (href_of a) \<noteq> None
      then Some (href_of a) else None)"

text \<open>The body of the third loop, for one link.\<close>

definition loose_href :: "node \<Rightarrow> string option" where
  "loose_href a =
     (if endswith (lower (href_of a)) ''.pdf'' \<and> contains ''ingot'' (norm (get_text a))
         \<and> \<not> contains ''spec'' (lower (href_of a))
      then Some (href_of a) else None)"

text \<open>A loop that returns at the first element its body accepts.\<close>

fun first_some :: "('a \<Rightarrow> 'b option) \<Rightarrow> 'a list \<Rightarrow> 'b option" where
  "first_some f [] = None"
| "first_some f (x # xs) = (case f x of Some y \<Rightarrow> Some y | None \<Rightarrow> first_some f xs)"

text \<open>
  \<open>find_ingots_pdf_url\<close>. \<open>urljoin\<close> is the standard library's; it is a parameter.
\<close>

definition find_ingots_pdf_url :: "(string \<Rightarrow> string \<Rightarrow> string) \<Rightarrow> node list \<Rightarrow> string option" where
  "find_ingots_pdf_url urljoin soup =
     (case first_some strict_href (find_all ''p'' soup) of
        Some href \<Rightarrow> Some (urljoin NALCO_URL href)
      | None \<Rightarrow>
        (case first_some dated_href (find_all_a_href soup) of
           Some href \<Rightarrow> Some (urljoin NALCO_URL href)
         | None \<Rightarrow>
           (case first_some loose_href (find_all_a_href soup) of
              Some href \<Rightarrow> Some (urljoin NALCO_URL href)
            | None \<Rightarrow> None)))"

section \<open>DateResolver\<close>

text \<open>
  \<open>datetime.date(year, month, day)\<close> raises ValueError unless the year is in 1..9999, the
  month in 1..12 and the day in 1..the days of that month; \<open>None\<close> is the ValueError.
\<close>

record date =
  year :: int
  month :: int
  day :: int

definition is_leap :: "int \<Rightarrow> bool" where
  "is_leap y = (y mod 4 = 0 \<and> (y mod 100 \<noteq> 0 \<or> y mod 400 = 0))"

definition days_in_month :: "int \<Rightarrow> int \<Rightarrow> int" where
  "days_in_month y m =
     (if m = 2 then (if is_leap y then 29 else 28)
      else if m = 4 \<or> m = 6 \<or> m = 9 \<or> m = 11 then 30 else 31)"

definition make_date :: "int \<Rightarrow> int \<Rightarrow> int \<Rightarrow> date option" where
  "make_date y m d =
     (if 1 \<le> y \<and> y \<le> 9999 \<and> 1 \<le> m \<and> m \<le> 12 \<and> 1 \<le> d \<and> d \<le> days_in_month y m
      then Some \<lparr>year = y, month = m, day = d\<rparr> else None)"

text \<open>\<open>int(s)\<close> on a string of decimal digits.\<close>

definition digit_val :: "char \<Rightarrow> int" where
  "digit_val c = (case map_of (zip ''0123456789'' [0, 1, 2, 3, 4, 5, 6, 7, 8, 9]) c of
                    Some n \<Rightarrow> n | None \<Rightarrow> 0)"

definition int_of_digits :: "string \<Rightarrow> int" where
  "int_of_digits s = foldl (\<lambda>n c. 10 * n + digit_val c) 0 s"

text \<open>\<open>str\<close> of an integer.\<close>

definition digit_char :: "int \<Rightarrow> char" where
  "digit_char n = ''0123456789'' ! nat (n mod 10)"

function str_nat :: "int \<Rightarrow> string" where
  "str_nat n = (if n < 10 then [digit_char n] else str_nat (n div 10) @ [digit_char n])"
  by pat_completeness auto
termination
  by (relation "measure nat") auto

declare str_nat.simps [simp del]

definition str_int :: "int \<Rightarrow> string" where
  "str_int n = (if n < 0 then ''-'' @ str_nat (- n) else str_nat n)"

text \<open>
  \<open>d.strftime("%d-%m-%Y")\<close>: day and month on two digits, zero-padded. \<open>%Y\<close> is
  formatted by the C library; as CPython gives it on glibc, it is the decimal number of the
  year without padding, which has four digits from the year 1000 on.
\<close>

definition pad2 :: "int \<Rightarrow> string" where
  "pad2 n = [digit_char (n div 10), digit_char n]"

definition strftime_dmy :: "date \<Rightarrow> string" where
  "strftime_dmy d = pad2 (day d) @ ''-'' @ pad2 (month d) @ ''-'' @ str_int (year d)"

text \<open>
  \<open>parse_circular_date_from_filename\<close>; \<open>today\<close> is \<open>datetime.date.today()\<close>, and the
  argument is \<open>pdf_path.name\<close>.
\<close>

definition parse_circular_date_from_filename :: "date \<Rightarrow> string \<Rightarrow> string" where
  "parse_circular_date_from_filename today name =
     (case DATEY_PDF_RE_search name of
        Some (dd, mm, yyyy) \<Rightarrow>
          (case make_date (int_of_digits yyyy) (int_of_digits mm) (int_of_digits dd) of
             Some d \<Rightarrow> strftime_dmy d
           | None \<Rightarrow> strftime_dmy today)
      | None \<Rightarrow> strftime_dmy today)"

section \<open>RecordExtractor\<close>

text \<open>
  The document as pdfplumber decodes it: a list of pages. A page gives its tables (rows of
  cells, a cell a string or None; \<open>None\<close> for the tables when \<open>extract_tables()\<close> raises
  or returns nothing) and its words, each with its text and its \<open>top\<close> and \<open>x0\<close>
  coordinates, held as the exact value of the number.
\<close>

type_synonym cell = "string option"

type_synonym table = "cell list list"

record word =
  w_text :: string
  w_top :: rat
  w_x0 :: rat

record pdf_page =
  extract_tables :: "table list option"
  extract_words :: "word list"

record extracted =
  Description :: "codepoint list"
  Product_Code :: string
  Basic_Price :: string

text \<open>The exceptions of a run; a RuntimeError carries the fixed part of its message.\<close>

datatype error =
    RuntimeError string
  | OverflowError
  | HTTPError nat
  | RequestException
  | OSError
  | PDFSyntaxError

subsection \<open>Table strategy\<close>

text \<open>\<open>re.fullmatch(r"IE07", x, flags=re.IGNORECASE)\<close>\<close>

definition is_ie07 :: "string \<Rightarrow> bool" where
  "is_ie07 x = (lower x = ''ie07'')"

text \<open>\<open>re.fullmatch(r"\d+(\.\d+)?", x)\<close>\<close>

definition is_numeric :: "string \<Rightarrow> bool" where
  "is_numeric x =
     (takeWhile is_digit x \<noteq> [] \<and>
      (case dropWhile is_digit x of
         [] \<Rightarrow> True
       | c # cs \<Rightarrow> c = CHR ''.'' \<and> cs \<noteq> [] \<and> all_digits cs))"

text \<open>\<open>s.replace(",", "")\<close>\<close>

definition remove_commas :: "string \<Rightarrow> string" where
  "remove_commas s = filter (\<lambda>c. c \<noteq> CHR '','') s"

text \<open>
  The body of the loop over the rows of a table: the record the row yields, if it is
  accepted. \<open>idx\<close> is the index of the first cell that is the code; the description is
  looked for to its left, nearest first, the price to its right.
\<close>

definition scan_row :: "cell list \<Rightarrow> extracted option" where
  "scan_row row =
     (let cells = map (\<lambda>c. strip (case c of None \<Rightarrow> [] | Some s \<Rightarrow> s)) row in
      if list_ex is_ie07 cells then
        (let idx = length (takeWhile (\<lambda>c. \<not> is_ie07 c) cells);
             desc = (case List.find (\<lambda>c. c \<noteq> [] \<and> \<not> is_numeric c) (rev (take idx cells)) of
                       Some c \<Rightarrow> c | None \<Rightarrow> []);
             price = (case List.find (list_ex is_digit) (drop (Suc idx) cells) of
                        Some c \<Rightarrow> remove_commas c | None \<Rightarrow> [])
         in if price \<noteq> [] then
              Some \<lparr>Description = upper (if desc = [] then ''ALUMINIUM INGOT'' else desc),
                    Product_Code = ''IE07'', Basic_Price = price\<rparr>
            else None)
      else None)"

definition scan_tables :: "table list \<Rightarrow> extracted option" where
  "scan_tables tables = first_some (first_some scan_row) tables"

subsection \<open>Line scan\<close>

text \<open>
  \<open>round(w["top"], 1)\<close> rounds half to even on the exact value; the key of a line is
  held as the rounded value times ten.
\<close>

definition round_half_even :: "rat \<Rightarrow> int" where
  "round_half_even x =
     (let f = \<lfloor>x\<rfloor>; r = x - of_int f in
      if r < 1 / 2 then f else if 1 / 2 < r then f + 1 else if even f then f else f + 1)"

definition line_key :: "word \<Rightarrow> int" where
  "line_key w = round_half_even (w_top w * 10)"

text \<open>
  \<open>lines.setdefault(y, []).append(w)\<close> on a dict, which keeps its keys in the order of
  their first insertion.
\<close>

definition setdefault_append :: "(int \<times> word list) list \<Rightarrow> word \<Rightarrow> (int \<times> word list) list" where
  "setdefault_append lines w =
     (if line_key w \<in> set (map fst lines)
      then map (\<lambda>kv. if fst kv = line_key w then (fst kv, snd kv @ [w]) else kv) lines
      else lines @ [(line_key w, [w])])"

definition group_lines :: "word list \<Rightarrow> (int \<times> word list) list" where
  "group_lines ws = foldl setdefault_append [] ws"

text \<open>\<open>" ".join(xs)\<close>\<close>

fun join_space :: "string list \<Rightarrow> string" where
  "join_space [] = []"
| "join_space [x] = x"
| "join_space (x # y # ys) = x @ '' '' @ join_space (y # ys)"

text \<open>\<open>" ".join([w["text"] for w in sorted(wlist, key=lambda x: x["x0"])])\<close>\<close>

definition text_line :: "word list \<Rightarrow> string" where
  "text_line wlist = join_space (map w_text (sort_key w_x0 wlist))"

text \<open>
  \<open>\b\<close> between the text before a position and the text after it: exactly one side is a
  word character. \<open>\w\<close> matches the ASCII letters and digits, the underscore, and below
  256 also the letters and numeric characters from \<open>U+00AA\<close> on.
\<close>

definition is_word_char :: "char \<Rightarrow> bool" where
  "is_word_char c =
     (is_letter c \<or> is_digit c \<or> c = CHR ''_'' \<or>
      c \<in> set
        [CHR 0xAA, CHR 0xB2, CHR 0xB3, CHR 0xB5, CHR 0xB9, CHR 0xBA, CHR 0xBC, CHR 0xBD,
         CHR 0xBE, CHR 0xC0, CHR 0xC1, CHR 0xC2, CHR 0xC3, CHR 0xC4, CHR 0xC5, CHR 0xC6,
         CHR 0xC7, CHR 0xC8, CHR 0xC9, CHR 0xCA, CHR 0xCB, CHR 0xCC, CHR 0xCD, CHR 0xCE,
         CHR 0xCF, CHR 0xD0, CHR 0xD1, CHR 0xD2, CHR 0xD3, CHR 0xD4, CHR 0xD5, CHR 0xD6,
         CHR 0xD8, CHR 0xD9, CHR 0xDA, CHR 0xDB, CHR 0xDC, CHR 0xDD, CHR 0xDE, CHR 0xDF,
         CHR 0xE0, CHR 0xE1, CHR 0xE2, CHR 0xE3, CHR 0xE4, CHR 0xE5, CHR 0xE6, CHR 0xE7,
         CHR 0xE8, CHR 0xE9, CHR 0xEA, CHR 0xEB, CHR 0xEC, CHR 0xED, CHR 0xEE, CHR 0xEF,
         CHR 0xF0, CHR 0xF1, CHR 0xF2, CHR 0xF3, CHR 0xF4, CHR 0xF5, CHR 0xF6, CHR 0xF8,
         CHR 0xF9, CHR 0xFA, CHR 0xFB, CHR 0xFC, CHR 0xFD, CHR 0xFE, CHR 0xFF])"

definition word_boundary :: "string \<Rightarrow> string \<Rightarrow> bool" where
  "word_boundary pre post =
     ((pre \<noteq> [] \<and> is_word_char (last pre)) \<noteq> (post \<noteq> [] \<and> is_word_char (hd post)))"

text \<open>\<open>re.search(r"\bIE07\b", s, flags=re.IGNORECASE)\<close> finds a match.\<close>

definition ie07_at :: "string \<Rightarrow> nat \<Rightarrow> bool" where
  "ie07_at s i =
     (word_boundary (take i s) (drop i s) \<and> lower (take 4 (drop i s)) = ''ie07''
      \<and> word_boundary (take (i + 4) s) (drop (i + 4) s))"

definition search_ie07 :: "string \<Rightarrow> bool" where
  "search_ie07 s = list_ex (ie07_at s) [0..<Suc (length s)]"

text \<open>
  \<open>re.search(r"(\d{5,7}(?:\.\d+)?)\s*$", s)\<close>, group 1. \<open>price_at\<close> matches at the start
  of a suffix of the line. After the digits of \<open>\d{5,7}\<close> comes a dot, white space or the
  end, never a digit, so the digits are the whole run of digits there, 5 to 7 long; in the
  same way a fraction is its whole run of digits. \<open>\s*$\<close> matches where only white space
  is left (a newline that ends the string is white space too). The search returns the
  leftmost match.
\<close>

definition price_at :: "string \<Rightarrow> string option" where
  "price_at r =
     (let ds = takeWhile is_digit r; r1 = dropWhile is_digit r in
      if 5 \<le> length ds \<and> length ds \<le> 7 then
        (case r1 of
           [] \<Rightarrow> Some ds
         | c # r2 \<Rightarrow>
             (if c = CHR ''.'' \<and> takeWhile is_digit r2 \<noteq> [] \<and> list_all is_space (dropWhile is_digit r2)
              then Some (ds @ ''.'' @ takeWhile is_digit r2)
              else if list_all is_space r1 then Some ds else None))
      else None)"

fun search_price :: "string \<Rightarrow> string option" where
  "search_price [] = None"
| "search_price (c # cs) =
     (case price_at (c # cs) of Some p \<Rightarrow> Some p | None \<Rightarrow> search_price cs)"

text \<open>
  \<open>re.search(r"([A-Z ]*INGOT[A-Z ]*)\b", s, flags=re.IGNORECASE)\<close>, group 1. At a start
  position the first star takes \<open>k\<close> characters of the class, the longest run first, then
  the literal follows, then the second star takes \<open>m\<close> characters, the longest run first,
  and \<open>\b\<close> must hold where it ends; the first success in that order is the match, at the
  leftmost start position that has one.
\<close>

definition is_desc_char :: "char \<Rightarrow> bool" where
  "is_desc_char c = (is_letter c \<or> c = CHR '' '')"

definition desc_at :: "string \<Rightarrow> nat \<Rightarrow> string option" where
  "desc_at s i =
     (let r = drop i s; kmax = length (takeWhile is_desc_char r) in
      first_some
        (\<lambda>k. if lower (take 5 (drop k r)) = ''ingot'' then
               (let mmax = length (takeWhile is_desc_char (drop (k + 5) r)) in
                first_some
                  (\<lambda>m. if word_boundary (take (i + k + 5 + m) s) (drop (i + k + 5 + m) s)
                       then Some (take (k + 5 + m) r) else None)
                  (rev [0..<Suc mmax]))
             else None)
        (rev [0..<Suc kmax]))"

definition search_desc :: "string \<Rightarrow> string option" where
  "search_desc s = first_some (desc_at s) [0..<Suc (length s)]"

text \<open>The body of the loop over the lines of a page, for the text of one line.\<close>

definition scan_line :: "string \<Rightarrow> extracted option" where
  "scan_line line =
     (if search_ie07 line then
        (let price = remove_commas (case search_price line of Some p \<Rightarrow> p | None \<Rightarrow> []);
             desc = upper (strip (case search_desc line of Some d \<Rightarrow> d | None \<Rightarrow> ''ALUMINIUM INGOT''))
         in if price \<noteq> [] then
              Some \<lparr>Description = desc, Product_Code = ''IE07'', Basic_Price = price\<rparr>
            else None)
      else None)"

definition scan_lines :: "word list \<Rightarrow> extracted option" where
  "scan_lines ws = first_some (\<lambda>kv. scan_line (text_line (snd kv))) (group_lines ws)"

subsection \<open>\<open>extract_row_ie07\<close>\<close>

text \<open>
  The loop over the pages: on each page the tables first, then the lines of that page,
  then the next page. The RuntimeError after the loop is the only way out without a record.
\<close>

definition page_tables :: "pdf_page \<Rightarrow> table list" where
  "page_tables page = (case extract_tables page of None \<Rightarrow> [] | Some ts \<Rightarrow> ts)"

fun extract_row_ie07 :: "pdf_page list \<Rightarrow> error + extracted" where
  "extract_row_ie07 [] = Inl (RuntimeError ''Could not find a row with Product Code IE07 in the PDF.'')"
| "extract_row_ie07 (page # pages) =
     (case scan_tables (page_tables page) of
        Some r \<Rightarrow> Inr r
      | None \<Rightarrow>
        (case scan_lines (extract_words page) of
           Some r \<Rightarrow> Inr r
         | None \<Rightarrow> extract_row_ie07 pages))"

section \<open>Numeric normalization\<close>

text \<open>
  A Python float is an IEEE 754 double: a finite value, held as the rational number it
  stands for (the sign of a zero is not kept), an infinity or a NaN.
\<close>

datatype pyfloat = Finite rat | PosInf | NegInf | NaN

definition pow2 :: "int \<Rightarrow> rat" where
  "pow2 e = (if 0 \<le> e then 2 ^ nat e else 1 / 2 ^ nat (- e))"

definition pow10 :: "int \<Rightarrow> rat" where
  "pow10 e = (if 0 \<le> e then 10 ^ nat e else 1 / 10 ^ nat (- e))"

text \<open>
  The exponent of a positive rational: the \<open>e\<close> with \<open>2 ^ e \<le> a < 2 ^ (e + 1)\<close>, from
  the bit lengths of the numerator and the denominator.
\<close>

function bit_length :: "int \<Rightarrow> int" where
  "bit_length n = (if n \<le> 0 then 0 else 1 + bit_length (n div 2))"
  by pat_completeness auto
termination
  by (relation "measure nat") auto

declare bit_length.simps [simp del]

definition ilog2 :: "rat \<Rightarrow> int" where
  "ilog2 a =
     (let e0 = bit_length (fst (quotient_of a)) - bit_length (snd (quotient_of a))
      in if pow2 e0 \<le> a then e0 else e0 - 1)"

text \<open>
  Rounding of an exact value to the nearest double, ties to even: 53 bits of precision,
  the least exponent -1022 (below it the spacing of the subnormal numbers), and an
  infinity when the rounded value reaches \<open>2 ^ 1024\<close>, that is when its exponent is 1024.
  Every operation on floats below rounds its exact result this way, as the hardware and
  the correctly rounded conversions of CPython do.
\<close>

definition round_to_double :: "rat \<Rightarrow> pyfloat" where
  "round_to_double x =
     (if x = 0 then Finite 0
      else
        (let a = \<bar>x\<bar>;
             e = max (ilog2 a) (- 1022);
             u = pow2 (e - 52);
             r = of_int (round_half_even (a / u)) * u
         in if 1024 \<le> ilog2 r then (if x < 0 then NegInf else PosInf)
            else Finite (if x < 0 then - r else r)))"

text \<open>
  \<open>float(s)\<close> on a string. White space around the number is dropped; an underscore
  is allowed between two digits only and is dropped; \<open>None\<close> is the ValueError.
\<close>

fun drop_underscores :: "char \<Rightarrow> string \<Rightarrow> string option" where
  "drop_underscores prev [] = (if prev = CHR ''_'' then None else Some [])"
| "drop_underscores prev (c # cs) =
     (if c = CHR ''_'' then (if is_digit prev then drop_underscores c cs else None)
      else if prev = CHR ''_'' \<and> \<not> is_digit c then None
      else map_option ((#) c) (drop_underscores c cs))"

text \<open>
  The exponent part: \<open>e\<close> or \<open>E\<close>, an optional sign and at least one digit, up to the end
  of the string.
\<close>

definition parse_exponent :: "string \<Rightarrow> int option" where
  "parse_exponent s =
     (case s of
        [] \<Rightarrow> Some 0
      | c # t \<Rightarrow>
          (if c = CHR ''e'' \<or> c = CHR ''E'' then
             (let neg = (take 1 t = ''-'');
                  ds = (if take 1 t = ''-'' \<or> take 1 t = ''+'' then drop 1 t else t)
              in if ds \<noteq> [] \<and> all_digits ds
                 then Some (if neg then - int_of_digits ds else int_of_digits ds)
                 else None)
           else None))"

text \<open>
  An unsigned decimal number: digits, an optional dot and digits, with at least one digit
  before or after the dot, and an optional exponent. The value is exact.
\<close>

definition parse_decimal :: "string \<Rightarrow> rat option" where
  "parse_decimal s =
     (let ip = takeWhile is_digit s;
          r1 = dropWhile is_digit s;
          fp = (if take 1 r1 = ''.'' then takeWhile is_digit (drop 1 r1) else []);
          r2 = (if take 1 r1 = ''.'' then dropWhile is_digit (drop 1 r1) else r1)
      in if ip = [] \<and> fp = [] then None
         else (case parse_exponent r2 of
                 None \<Rightarrow> None
               | Some e \<Rightarrow> Some (of_int (int_of_digits (ip @ fp)) * pow10 (e - int (length fp)))))"

definition float_of_string :: "string \<Rightarrow> pyfloat option" where
  "float_of_string s =
     (case drop_underscores (CHR 0x00) (strip s) of
        None \<Rightarrow> None
      | Some t \<Rightarrow>
          (let neg = (take 1 t = ''-'');
               body = (if take 1 t = ''-'' \<or> take 1 t = ''+'' then drop 1 t else t)
           in if lower body = ''inf'' \<or> lower body = ''infinity'' then Some (if neg then NegInf else PosInf)
              else if lower body = ''nan'' then Some NaN
              else (case parse_decimal body of
                      None \<Rightarrow> None
                    | Some q \<Rightarrow> Some (round_to_double (if neg then - q else q)))))"

text \<open>\<open>v / 1000.0\<close>\<close>

definition div_1000 :: "pyfloat \<Rightarrow> pyfloat" where
  "div_1000 v = (case v of Finite x \<Rightarrow> round_to_double (x / 1000) | _ \<Rightarrow> v)"

text \<open>
  \<open>round(v, 3)\<close>: an infinity or a NaN is returned as it is; a finite value is converted
  to the decimal with three places nearest to its exact value, ties to even, and that
  decimal back to a double; OverflowError if the result is not finite.
\<close>

definition round_3 :: "pyfloat \<Rightarrow> error + pyfloat" where
  "round_3 v =
     (case v of
        Finite x \<Rightarrow>
          (case round_to_double (of_int (round_half_even (x * 1000)) / 1000) of
             Finite y \<Rightarrow> Inr (Finite y)
           | _ \<Rightarrow> Inl OverflowError)
      | _ \<Rightarrow> Inr v)"

text \<open>
  \<open>to_thousands\<close>: \<open>Inr None\<close> is the return of None, \<open>Inl\<close> an exception that the
  function does not catch.
\<close>

definition to_thousands :: "string \<Rightarrow> error + pyfloat option" where
  "to_thousands value_str =
     (let s = strip (remove_commas value_str) in
      if s = [] then Inr None
      else (case float_of_string s of
              None \<Rightarrow> Inr None
            | Some v \<Rightarrow> map_sum id Some (round_3 (div_1000 v))))"

section \<open>LedgerStore\<close>

text \<open>
  A row of the ledger as \<open>read_excel\<close> gives it: \<open>Sl.no.\<close> is a nullable integer, the
  price a float, the other cells text; \<open>None\<close> (NaN for the price) is an empty cell.
\<close>

record ledger_row =
  col_Sl_no :: "int option"
  col_Description :: "codepoint list option"
  col_Product_Code :: "string option"
  col_Basic_Price :: pyfloat
  col_Circular_Date :: "string option"
  col_Circular_Link :: "string option"

text \<open>
  What the code uses of pandas is a parameter: \<open>to_datetime col i\<close> is the timestamp at
  index \<open>i\<close> of \<open>pd.to_datetime(col, dayfirst=True, errors="coerce")\<close>, in nanoseconds,
  \<open>None\<close> for NaT; \<open>strftime_ts\<close> is \<open>strftime("%d-%m-%Y")\<close> on a timestamp; and
  \<open>to_numeric_round\<close> is \<open>pd.to_numeric(_, errors="coerce").round(3)\<close> on a cell.
\<close>

record pandas =
  to_datetime :: "string option list \<Rightarrow> nat \<Rightarrow> int option"
  strftime_ts :: "int \<Rightarrow> string"
  to_numeric_round :: "pyfloat \<Rightarrow> pyfloat"

text \<open>
  \<open>sort_values(by=["_date", "Sl.no."], ascending=[False, True], kind="stable")\<close> on rows
  paired with their \<open>_date\<close>: a stable sort on the pair of keys, a missing value last in
  either column.
\<close>

definition date_key :: "int option \<Rightarrow> int \<times> int" where
  "date_key d = (case d of Some t \<Rightarrow> (0, - t) | None \<Rightarrow> (1, 0))"

definition slno_key :: "int option \<Rightarrow> int \<times> int" where
  "slno_key n = (case n of Some k \<Rightarrow> (0, k) | None \<Rightarrow> (1, 0))"

definition row_key :: "int option \<times> ledger_row \<Rightarrow> (int \<times> int) \<times> (int \<times> int)" where
  "row_key dr = (date_key (fst dr), slno_key (col_Sl_no (snd dr)))"

definition sort_values :: "(int option \<times> ledger_row) list \<Rightarrow> (int option \<times> ledger_row) list" where
  "sort_values df = sort_key row_key df"

text \<open>\<open>df.assign(_date=pd.to_datetime(df["Circular Date"], ...))\<close>\<close>

definition assign_date :: "pandas \<Rightarrow> ledger_row list \<Rightarrow> (int option \<times> ledger_row) list" where
  "assign_date lib df = zip (map (to_datetime lib (map col_Circular_Date df)) [0..<length df]) df"

definition sort_and_format_df :: "pandas \<Rightarrow> ledger_row list \<Rightarrow> ledger_row list" where
  "sort_and_format_df lib df =
     (let sorted_df = map snd (sort_values (assign_date lib df));
          priced = map (\<lambda>r. r\<lparr>col_Basic_Price := to_numeric_round lib (col_Basic_Price r)\<rparr>) sorted_df
      in map (\<lambda>dr. (snd dr)\<lparr>col_Circular_Date := map_option (strftime_ts lib) (fst dr)\<rparr>)
           (assign_date lib priced))"

text \<open>
  \<open>int(df["Sl.no."].max()) + 1 if df["Sl.no."].notna().any() else 1\<close>; integers are
  unbounded here.
\<close>

definition next_slno :: "ledger_row list \<Rightarrow> int" where
  "next_slno df =
     (let sls = List.map_filter col_Sl_no df in if sls \<noteq> [] then Max (set sls) + 1 else 1)"

text \<open>
  \<open>append_to_excel\<close> on the content of the file (\<open>None\<close> when it does not exist), with
  the fields of \<open>row\<close>: the content saved and the number of rows returned.
\<close>

definition append_to_excel ::
  "pandas \<Rightarrow> ledger_row list option \<Rightarrow> codepoint list \<Rightarrow> string \<Rightarrow> pyfloat \<Rightarrow> string \<Rightarrow> string
     \<Rightarrow> ledger_row list \<times> int" where
  "append_to_excel lib file desc code price circ_date link =
     (let df = (case file of Some rows \<Rightarrow> rows | None \<Rightarrow> []);
          slno = (case file of Some rows \<Rightarrow> next_slno rows | None \<Rightarrow> 1);
          new_row = \<lparr>col_Sl_no = Some slno, col_Description = Some desc,
                     col_Product_Code = Some code, col_Basic_Price = price,
                     col_Circular_Date = Some circ_date, col_Circular_Link = Some link\<rparr>;
          saved = sort_and_format_df lib (df @ [new_row])
      in (saved, int (length saved)))"

section \<open>RunAuditLog\<close>

record runlog_row =
  Run_UTC :: string
  Run_IST :: string
  Status :: string
  Message :: string
  Chosen_URL :: string
  Saved_PDF :: string
  Rows_Appended :: int
  Total_Rows_After :: "int option"

text \<open>\<open>append_runlog\<close> on the content of the log file: the content saved.\<close>

definition append_runlog :: "runlog_row list option \<Rightarrow> runlog_row \<Rightarrow> runlog_row list" where
  "append_runlog file info = (case file of Some rows \<Rightarrow> rows | None \<Rightarrow> []) @ [info]"

section \<open>Orchestrator\<close>

text \<open>
  The files of a run and the requests it sends: the marker file, the ledger, the run log
  (each \<open>None\<close> when the file does not exist), the paths written under the PDF directory
  and the URLs requested, in order.
\<close>

record world =
  LOG_FILE :: "string option"
  EXCEL_FILE :: "ledger_row list option"
  RUNLOG_FILE :: "runlog_row list option"
  PDF_DIR :: "string list"
  http_requests :: "string list"

text \<open>The response to the download request, as far as \<open>download_pdf\<close> reads it.\<close>

record response =
  status_code :: nat
  header_Content_Type :: "string option"
  header_Content_Disposition :: "string option"
  final_url :: string

text \<open>
  The collaborators of a run: the clock, the page as fetched and parsed (or the
  exception of \<open>get_html\<close>), the answer to a download request (or the exception of
  \<open>requests.get\<close>), the URL functions of the standard library, whether a destination can
  be opened and written, the document pdfplumber decodes from a saved file, and pandas.
\<close>

record env =
  now_times :: "string \<times> string"
  date_today :: date
  time_time :: int
  get_html :: "error + node list"
  requests_get :: "string \<Rightarrow> error + response"
  lib_urljoin :: "string \<Rightarrow> string \<Rightarrow> string"
  lib_urlparse_path :: "string \<Rightarrow> string"
  open_wb :: "string \<Rightarrow> bool"
  pdfplumber_open :: "string \<Rightarrow> error + pdf_page list"
  pd :: pandas

definition read_last_url :: "world \<Rightarrow> string" where
  "read_last_url w = (case LOG_FILE w of Some txt \<Rightarrow> strip txt | None \<Rightarrow> [])"

definition write_last_url :: "string \<Rightarrow> world \<Rightarrow> world" where
  "write_last_url url w = w\<lparr>LOG_FILE := Some url\<rparr>"

text \<open>\<open>cd.split("filename=", 1)[1]\<close> where \<open>"filename=" in cd\<close>, and \<open>s.strip(chars)\<close>.\<close>

fun after_first :: "string \<Rightarrow> string \<Rightarrow> string" where
  "after_first sub [] = []"
| "after_first sub (c # cs) =
     (if startswith (c # cs) sub then drop (length sub) (c # cs) else after_first sub cs)"

definition strip_chars :: "string \<Rightarrow> string \<Rightarrow> string" where
  "strip_chars chars s =
     rev (dropWhile (\<lambda>c. c \<in> set chars) (rev (dropWhile (\<lambda>c. c \<in> set chars) s)))"

text \<open>\<open>os.path.basename\<close> and the \<open>name\<close> of \<open>PDF_DIR / filename\<close>.\<close>

definition basename :: "string \<Rightarrow> string" where
  "basename path = rev (takeWhile (\<lambda>c. c \<noteq> CHR ''/'') (rev path))"

fun split_slash :: "string \<Rightarrow> string list" where
  "split_slash [] = [[]]"
| "split_slash (c # cs) =
     (if c = CHR ''/'' then [] # split_slash cs
      else (case split_slash cs of p # ps \<Rightarrow> (c # p) # ps | [] \<Rightarrow> [[c]]))"

definition pdf_dir_join :: "string \<Rightarrow> string" where
  "pdf_dir_join filename = (if startswith filename ''/'' then filename else ''pdfs/'' @ filename)"

definition path_name :: "string \<Rightarrow> string" where
  "path_name filename =
     (let parts = filter (\<lambda>p. p \<noteq> [] \<and> p \<noteq> ''.'') (split_slash filename) in
      if parts \<noteq> [] then last parts
      else if startswith filename ''/'' then [] else ''pdfs'')"

text \<open>
  \<open>download_pdf\<close>: the file name of the destination, or the exception. The request is
  recorded, the file is written when all checks pass. \<open>raise_for_status\<close> raises on the
  status codes 400 to 599.
\<close>

definition download_pdf :: "env \<Rightarrow> string \<Rightarrow> world \<Rightarrow> (error + string) \<times> world" where
  "download_pdf e url w =
     (let w1 = w\<lparr>http_requests := http_requests w @ [url]\<rparr> in
      case requests_get e url of
        Inl err \<Rightarrow> (Inl err, w1)
      | Inr r \<Rightarrow>
          if 400 \<le> status_code r \<and> status_code r < 600 then (Inl (HTTPError (status_code r)), w1)
          else
            (let ctype = lower (case header_Content_Type r of Some v \<Rightarrow> v | None \<Rightarrow> []) in
             if \<not> contains ''application/pdf'' ctype
             then (Inl (RuntimeError ''Expected PDF but got another Content-Type''), w1)
             else
               (let cd = (case header_Content_Disposition r of Some v \<Rightarrow> v | None \<Rightarrow> []);
                    named = (if contains ''filename='' cd
                             then strip_chars [CHR 0x22, CHR '';'', CHR '' ''] (after_first ''filename='' cd)
                             else []);
                    filename =
                      (if named \<noteq> [] then named
                       else if basename (lib_urlparse_path e (final_url r)) \<noteq> []
                       then basename (lib_urlparse_path e (final_url r))
                       else ''nalco_'' @ str_int (time_time e) @ ''.pdf'')
                in if open_wb e (pdf_dir_join filename)
                   then (Inr filename, w1\<lparr>PDF_DIR := PDF_DIR w1 @ [pdf_dir_join filename]\<rparr>)
                   else (Inl OSError, w1))))"

text \<open>How a run ends: it returns, it exits with a status, or an exception leaves it.\<close>

datatype outcome = Returned | SysExit nat | Raised error

definition log_row :: "env \<Rightarrow> string \<Rightarrow> string \<Rightarrow> string \<Rightarrow> string \<Rightarrow> int \<Rightarrow> int option \<Rightarrow> runlog_row" where
  "log_row e status msg url saved n total_rows =
     \<lparr>Run_UTC = fst (now_times e), Run_IST = snd (now_times e), Status = status, Message = msg,
      Chosen_URL = url, Saved_PDF = saved, Rows_Appended = n, Total_Rows_After = total_rows\<rparr>"

text \<open>The entry of a run that finds the URL unchanged.\<close>

definition skip_entry :: "env \<Rightarrow> string \<Rightarrow> runlog_row" where
  "skip_entry e url =
     log_row e ''SKIPPED'' ''No change in PDF. Skipping download & Excel update.'' url [] 0 None"

text \<open>The run after the download, from \<open>write_last_url\<close> on.\<close>

definition process_pdf :: "env \<Rightarrow> string \<Rightarrow> string \<Rightarrow> world \<Rightarrow> outcome \<times> world" where
  "process_pdf e pdf_url filename w =
     (let w1 = write_last_url pdf_url w in
      case pdfplumber_open e (pdf_dir_join filename) of
        Inl err \<Rightarrow> (Raised err, w1)
      | Inr pages \<Rightarrow>
          (case extract_row_ie07 pages of
             Inl err \<Rightarrow> (Raised err, w1)
           | Inr row \<Rightarrow>
               (case to_thousands (Basic_Price row) of
                  Inl err \<Rightarrow> (Raised err, w1)
                | Inr None \<Rightarrow> (Raised (RuntimeError ''Could not parse numeric price''), w1)
                | Inr (Some thousands) \<Rightarrow>
                    (let circ_date = parse_circular_date_from_filename (date_today e) (path_name filename);
                         saved = append_to_excel (pd e) (EXCEL_FILE w1) (Description row)
                                   (Product_Code row) thousands circ_date pdf_url;
                         w2 = w1\<lparr>EXCEL_FILE := Some (fst saved)\<rparr>;
                         entry = log_row e ''UPDATED'' ''New circular processed.'' pdf_url
                                   (path_name filename) 1 (Some (snd saved))
                     in (Returned, w2\<lparr>RUNLOG_FILE := Some (append_runlog (RUNLOG_FILE w2) entry)\<rparr>)))))"

text \<open>The branch \<open>if not pdf_url\<close> of \<open>main\<close>: the entry, then \<open>sys.exit(1)\<close>.\<close>

definition no_pdf_link :: "env \<Rightarrow> world \<Rightarrow> outcome \<times> world" where
  "no_pdf_link e w =
     (SysExit 1,
      w\<lparr>RUNLOG_FILE := Some (append_runlog (RUNLOG_FILE w)
         (log_row e ''SKIPPED'' ''No Ingots PDF link found on the page.'' [] [] 0 None))\<rparr>)"

text \<open>
  \<open>main\<close>. \<open>if not pdf_url\<close> holds for None and for the empty string. The creation
  of the directories and the printed messages are left out.
\<close>

definition main :: "env \<Rightarrow> world \<Rightarrow> outcome \<times> world" where
  "main e w =
     (let w1 = w\<lparr>http_requests := http_requests w @ [NALCO_URL]\<rparr> in
      case get_html e of
        Inl err \<Rightarrow> (Raised err, w1)
      | Inr soup \<Rightarrow>
          (case find_ingots_pdf_url (lib_urljoin e) soup of
             None \<Rightarrow> no_pdf_link e w1
           | Some pdf_url \<Rightarrow>
               if pdf_url = [] then no_pdf_link e w1
               else if pdf_url = read_last_url w1 then
                 (Returned,
                  w1\<lparr>RUNLOG_FILE := Some (append_runlog (RUNLOG_FILE w1) (skip_entry e pdf_url))\<rparr>)
               else
                 (case download_pdf e pdf_url w1 of
                    (Inl err, w2) \<Rightarrow> (Raised err, w2)
                  | (Inr filename, w2) \<Rightarrow> process_pdf e pdf_url filename w2)))"

section \<open>Example inputs\<close>

text \<open>A \<open>urljoin\<close> for the examples: it resolves a path against the site of the base URL.\<close>

definition example_urljoin :: "string \<Rightarrow> string \<Rightarrow> string" where
  "example_urljoin base href = ''https://nalcoindia.com'' @ href"

text \<open>
  A page with a dated link first and then a link that holds \<open><p>Ingots</p>\<close>, and the same
  page with the label in a \<open>span\<close>.
\<close>

definition page_strict :: "node list" where
  "page_strict =
     [Tag ''div'' []
        [Tag ''a'' [(''href'', ''/c/Ingot-05-06-2024.pdf'')] [Text ''Archive''],
         Tag ''a'' [(''href'', ''/c/prices.pdf'')] [Tag ''img'' [] [], Tag ''p'' [] [Text '' Ingots '']]]]"

definition page_span :: "node list" where
  "page_span =
     [Tag ''div'' []
        [Tag ''a'' [(''href'', ''/c/Ingot-05-06-2024.pdf'')] [Text ''Archive''],
         Tag ''a'' [(''href'', ''/c/prices.pdf'')] [Tag ''img'' [] [], Tag ''span'' [] [Text '' Ingots '']]]]"

text \<open>
  Pages for the three tiers. On \<open>page_nbsp\<close> the first label is padded with no-break
  spaces (\<open>U+00A0\<close>), which \<open>str.strip()\<close> removes, and stands in another link than the
  second. On \<open>page_dated\<close> a link whose text mentions the ingot stands before the dated
  link; \<open>page_loose\<close> has only the former, \<open>page_none\<close> has a specification sheet and a
  link that is no PDF.
\<close>

definition page_nbsp :: "node list" where
  "page_nbsp =
     [Tag ''a'' [(''href'', ''/c/Ingot-05-06-2024.pdf'')] [Text ''Archive''],
      Tag ''a'' [(''href'', '' /c/first.pdf '')] [Tag ''p'' [] [Text (CHR 0xA0 # ''Ingots'' @ [CHR 0xA0])]],
      Tag ''a'' [(''href'', ''/c/second.pdf'')] [Tag ''p'' [] [Text ''Ingots'']]]"

definition page_dated :: "node list" where
  "page_dated =
     [Tag ''p'' [] [Text ''Ingots''],
      Tag ''a'' [(''href'', ''/c/list.pdf'')] [Text ''Aluminium Ingot prices''],
      Tag ''a'' [(''href'', ''/c/INGOT-05-06-2024.PDF'')] [Text ''Archive'']]"

definition page_loose :: "node list" where
  "page_loose =
     [Tag ''a'' [(''href'', ''/c/Ingot-spec-05-06-2024.pdf'')] [Text ''Ingot specification''],
      Tag ''a'' [(''href'', ''/c/list.pdf'')] [Tag ''b'' [] [Text ''Aluminium ''], Text ''INGOT prices'']]"

definition page_none :: "node list" where
  "page_none =
     [Tag ''a'' [(''href'', ''/c/Ingot-spec-05-06-2024.pdf'')] [Text ''Ingot specification''],
      Tag ''a'' [(''href'', ''/c/ingots.html'')] [Text ''Ingots''],
      Tag ''a'' [] [Text ''Ingot-05-06-2024.pdf'']]"

text \<open>
  Pages of a document: one with nothing to find, one whose only match is a line of words,
  and one whose only match is a table row.
\<close>

definition page_empty :: pdf_page where
  "page_empty = \<lparr>extract_tables = None, extract_words = []\<rparr>"

definition page_line :: pdf_page where
  "page_line =
     \<lparr>extract_tables = Some [],
      extract_words =
        [\<lparr>w_text = ''Aluminium'', w_top = 100, w_x0 = 10\<rparr>,
         \<lparr>w_text = ''Ingot'', w_top = 100, w_x0 = 60\<rparr>,
         \<lparr>w_text = ''IE07'', w_top = 100, w_x0 = 120\<rparr>,
         \<lparr>w_text = ''268250'', w_top = 100, w_x0 = 180\<rparr>]\<rparr>"

definition page_table :: pdf_page where
  "page_table =
     \<lparr>extract_tables = Some [[[Some ''1'', Some ''Aluminium Ingot'', Some ''IE07'', Some ''270,000'']]],
      extract_words = []\<rparr>"

text \<open>
  A page whose table row has a description with a sharp s (\<open>U+00DF\<close>) and a u with
  diaeresis (\<open>U+00FC\<close>), between no-break spaces.
\<close>

definition page_umlaut :: pdf_page where
  "page_umlaut =
     \<lparr>extract_tables =
        Some [[[Some ([CHR 0xA0] @ ''Gie'' @ [CHR 0xDF] @ ''barren al'' @ [CHR 0xFC] @ ''minium'' @ [CHR 0xA0]),
                Some ''ie07'', None, Some ''270,000'']]],
      extract_words = []\<rparr>"

definition doc_line_then_table :: "pdf_page list" where
  "doc_line_then_table = [page_line, page_table]"

text \<open>
  The display order in the words of the specification, on rows paired with their parsed
  date: the date descending, ties broken by the sequence number ascending; a row without a
  date comes after every dated row, a row without a number after the numbered rows of its
  date.
\<close>

definition date_before :: "int option \<Rightarrow> int option \<Rightarrow> bool" where
  "date_before a b =
     (case a of None \<Rightarrow> False | Some x \<Rightarrow> (case b of None \<Rightarrow> True | Some y \<Rightarrow> y < x))"

definition slno_le :: "int option \<Rightarrow> int option \<Rightarrow> bool" where
  "slno_le a b =
     (case b of None \<Rightarrow> True | Some y \<Rightarrow> (case a of None \<Rightarrow> False | Some x \<Rightarrow> x \<le> y))"

definition spec_display_order :: "int option \<times> ledger_row \<Rightarrow> int option \<times> ledger_row \<Rightarrow> bool" where
  "spec_display_order a b =
     (date_before (fst a) (fst b)
      \<or> (fst a = fst b \<and> slno_le (col_Sl_no (snd a)) (col_Sl_no (snd b))))"

text \<open>The last four decimal digits of a number.\<close>

definition pad4 :: "int \<Rightarrow> string" where
  "pad4 n = [digit_char (n div 1000), digit_char (n div 100), digit_char (n div 10), digit_char n]"

text \<open>
  A stand-in for pandas in the examples: a cell \<open>DD-MM-YYYY\<close> parses to the number
  \<open>YYYYMMDD\<close>, any other cell to NaT; prices are left as they are.
\<close>

definition example_parse_cell :: "string option \<Rightarrow> int option" where
  "example_parse_cell c =
     (case c of
        None \<Rightarrow> None
      | Some s \<Rightarrow>
          (if length s = 10 \<and> all_digits (take 2 s) \<and> all_digits (take 2 (drop 3 s))
              \<and> all_digits (drop 6 s)
           then Some (int_of_digits (drop 6 s @ take 2 (drop 3 s) @ take 2 s))
           else None))"

definition example_pandas :: pandas where
  "example_pandas =
     \<lparr>to_datetime = (\<lambda>col i. if i < length col then example_parse_cell (col ! i) else None),
      strftime_ts = (\<lambda>t. pad2 t @ ''-'' @ pad2 (t div 100) @ ''-'' @ pad4 (t div 10000)),
      to_numeric_round = (\<lambda>v. v)\<rparr>"

definition example_row :: "int option \<Rightarrow> string \<Rightarrow> ledger_row" where
  "example_row n d =
     \<lparr>col_Sl_no = n, col_Description = Some (latin1 ''ALUMINIUM INGOT''), col_Product_Code = Some ''IE07'',
      col_Basic_Price = Finite 250, col_Circular_Date = Some d,
      col_Circular_Link = Some ''https://nalcoindia.com/c/x.pdf''\<rparr>"

text \<open>
  A ledger whose rows carry the numbers 5, 1 and 2, in display order, and two rows of one
  date with the numbers 7 and 3.
\<close>

definition ledger_125 :: "ledger_row list" where
  "ledger_125 =
     [example_row (Some 5) ''01-03-2024'', example_row (Some 1) ''03-01-2024'',
      example_row (Some 2) ''02-01-2024'']"

definition ledger_tie :: "ledger_row list" where
  "ledger_tie = [example_row (Some 7) ''05-06-2024'', example_row (Some 3) ''05-06-2024'']"

text \<open>
  Runs: the page \<open>page_strict\<close>, an empty store, and a server that answers the download
  with a PDF, with status 404, or with an HTML page; a PDF without the code, and one whose
  price cell does not parse.
\<close>

definition world_empty :: world where
  "world_empty = \<lparr>LOG_FILE = None, EXCEL_FILE = None, RUNLOG_FILE = None, PDF_DIR = [], http_requests = []\<rparr>"

definition example_response :: "nat \<Rightarrow> string \<Rightarrow> string \<Rightarrow> response" where
  "example_response st ctype url =
     \<lparr>status_code = st, header_Content_Type = Some ctype, header_Content_Disposition = None,
      final_url = url\<rparr>"

definition env_ok :: env where
  "env_ok =
     \<lparr>now_times = (''2026-11-04 03:30:00 UTC'', ''2026-11-04 09:00:00 IST''),
      date_today = \<lparr>year = 2026, month = 11, day = 4\<rparr>,
      time_time = 1793763000,
      get_html = Inr page_strict,
      requests_get = (\<lambda>url. Inr (example_response 200 ''application/pdf'' url)),
      lib_urljoin = example_urljoin,
      lib_urlparse_path = drop 22,
      open_wb = (\<lambda>dest. True),
      pdfplumber_open = (\<lambda>dest. Inr [page_table]),
      pd = example_pandas\<rparr>"

definition env_404 :: env where
  "env_404 = env_ok\<lparr>requests_get := (\<lambda>url. Inr (example_response 404 ''text/html'' url))\<rparr>"

definition env_html :: env where
  "env_html = env_ok\<lparr>requests_get := (\<lambda>url. Inr (example_response 200 ''text/html; charset=utf-8'' url))\<rparr>"

definition env_no_ie07 :: env where
  "env_no_ie07 = env_ok\<lparr>pdfplumber_open := (\<lambda>dest. Inr [page_empty])\<rparr>"

definition env_bad_price :: env where
  "env_bad_price =
     env_ok\<lparr>pdfplumber_open :=
       (\<lambda>dest. Inr [\<lparr>extract_tables = Some [[[Some ''IE07'', Some ''Rs. 268250'']]], extract_words = []\<rparr>])\<rparr>"


section \<open>Properties\<close>

subsection \<open>Loops that return at the first accepted element\<close>

lemma first_some_Some:
  "first_some f xs = Some y \<Longrightarrow>
   \<exists>pre x post. xs = pre @ x # post \<and> list_all (\<lambda>z. f z = None) pre \<and> f x = Some y"
proof (induction xs)
  case Nil
  then show ?case by simp
next
  case (Cons a xs)
  show ?case
  proof (cases "f a")
    case None
    with Cons obtain pre x post where
      "xs = pre @ x # post" "list_all (\<lambda>z. f z = None) pre" "f x = Some y"
      by auto
    with None have "a # xs = (a # pre) @ x # post \<and> list_all (\<lambda>z. f z = None) (a # pre) \<and> f x = Some y"
      by simp
    then show ?thesis by blast
  next
    case (Some b)
    with Cons.prems have "a # xs = [] @ a # xs \<and> list_all (\<lambda>z. f z = None) [] \<and> f a = Some y"
      by simp
    then show ?thesis by blast
  qed
qed

lemma first_some_None: "first_some f xs = None \<longleftrightarrow> list_all (\<lambda>z. f z = None) xs"
  by (induction xs) (auto split: option.splits)

lemma first_some_exists:
  "x \<in> set xs \<Longrightarrow> f x \<noteq> None \<Longrightarrow> \<exists>y. first_some f xs = Some y"
  by (induction xs) (auto split: option.splits)

text \<open>
  The first element that a loop body accepts: the elements before it are refused, and the
  loop returns what the body gives for it.
\<close>

definition first_match :: "('a \<Rightarrow> 'b option) \<Rightarrow> 'a list \<Rightarrow> 'b \<Rightarrow> bool" where
  "first_match f xs y =
     (\<exists>pre x post. xs = pre @ x # post \<and> list_all (\<lambda>z. f z = None) pre \<and> f x = Some y)"

subsection \<open>DocumentLocator\<close>

text \<open>
  C4, as stated, fails: an element that is not a \<open>p\<close> tag is no strict match for the code.
  On \<open>page_span\<close> the \<open>span\<close> labelled Ingots stands in a link to a PDF that is not a spec,
  and the locator returns the dated link.
\<close>

theorem locator_span_not_strict:
  "(\<exists>ta \<in> set (all_tags page_span). tag_name (fst ta) = ''span'' \<and> strict_href ta = Some ''/c/prices.pdf'')
   \<and> (\<forall>urljoin. find_ingots_pdf_url urljoin page_span
                    = Some (urljoin NALCO_URL ''/c/Ingot-05-06-2024.pdf''))"
proof
  show "\<exists>ta \<in> set (all_tags page_span). tag_name (fst ta) = ''span'' \<and> strict_href ta = Some ''/c/prices.pdf''"
    by code_simp
  have "first_some strict_href (find_all ''p'' page_span) = None"
    by code_simp
  moreover have "first_some dated_href (find_all_a_href page_span) = Some ''/c/Ingot-05-06-2024.pdf''"
    by code_simp
  ultimately show "\<forall>urljoin. find_ingots_pdf_url urljoin page_span
                    = Some (urljoin NALCO_URL ''/c/Ingot-05-06-2024.pdf'')"
    by (simp add: find_ingots_pdf_url_def)
qed

text \<open>
  C4, amended: the three tiers are tried in order and the first one with a match gives the
  result. A strict match is a \<open>p\<close> tag (no other element) whose text, stripped and
  lower-cased, is \<open>ingots\<close>, and whose nearest enclosing link with an href has an href that
  ends in \<open>.pdf\<close> and does not contain \<open>spec\<close>. When the page has a strict match, the
  locator returns the URL of the first one in document order, whatever the other tiers
  would find. When it has none but has a link with a dated filename, the locator returns
  the URL of the first such link, whatever the loose tier would find, also in a link that
  stands earlier. When it has neither, the locator returns the URL of the first link to a
  PDF whose text mentions \<open>ingot\<close>, and nothing when there is no such link either.
\<close>

theorem locator_tiers_in_order:
  "((\<exists>pa \<in> set (find_all ''p'' soup). strict_href pa \<noteq> None) \<longrightarrow>
      (\<exists>pre pa' post h. find_all ''p'' soup = pre @ pa' # post
          \<and> list_all (\<lambda>x. strict_href x = None) pre \<and> strict_href pa' = Some h
          \<and> find_ingots_pdf_url urljoin soup = Some (urljoin NALCO_URL h)))
   \<and> (list_all (\<lambda>x. strict_href x = None) (find_all ''p'' soup)
        \<and> (\<exists>a \<in> set (find_all_a_href soup). dated_href a \<noteq> None) \<longrightarrow>
      (\<exists>pre a' post h. find_all_a_href soup = pre @ a' # post
          \<and> list_all (\<lambda>x. dated_href x = None) pre \<and> dated_href a' = Some h
          \<and> find_ingots_pdf_url urljoin soup = Some (urljoin NALCO_URL h)))
   \<and> (list_all (\<lambda>x. strict_href x = None) (find_all ''p'' soup)
        \<and> list_all (\<lambda>x. dated_href x = None) (find_all_a_href soup)
        \<and> (\<exists>a \<in> set (find_all_a_href soup). loose_href a \<noteq> None) \<longrightarrow>
      (\<exists>pre a' post h. find_all_a_href soup = pre @ a' # post
          \<and> list_all (\<lambda>x. loose_href x = None) pre \<and> loose_href a' = Some h
          \<and> find_ingots_pdf_url urljoin soup = Some (urljoin NALCO_URL h)))
   \<and> (list_all (\<lambda>x. strict_href x = None) (find_all ''p'' soup)
        \<and> list_all (\<lambda>x. dated_href x = None) (find_all_a_href soup)
        \<and> list_all (\<lambda>x. loose_href x = None) (find_all_a_href soup) \<longrightarrow>
      find_ingots_pdf_url urljoin soup = None)"
proof -
  have tier1: "\<exists>pre pa' post h. find_all ''p'' soup = pre @ pa' # post
          \<and> list_all (\<lambda>x. strict_href x = None) pre \<and> strict_href pa' = Some h
          \<and> find_ingots_pdf_url urljoin soup = Some (urljoin NALCO_URL h)"
    if "pa \<in> set (find_all ''p'' soup)" and "strict_href pa \<noteq> None" for pa
  proof -
    from first_some_exists [of pa "find_all ''p'' soup" strict_href, OF that] obtain h
      where h: "first_some strict_href (find_all ''p'' soup) = Some h" ..
    from first_some_Some [OF h] obtain pre pa' post where
      "find_all ''p'' soup = pre @ pa' # post" "list_all (\<lambda>x. strict_href x = None) pre"
      "strict_href pa' = Some h" by blast
    moreover from h have "find_ingots_pdf_url urljoin soup = Some (urljoin NALCO_URL h)"
      by (simp add: find_ingots_pdf_url_def)
    ultimately show ?thesis by blast
  qed
  have tier2: "\<exists>pre a' post h. find_all_a_href soup = pre @ a' # post
          \<and> list_all (\<lambda>x. dated_href x = None) pre \<and> dated_href a' = Some h
          \<and> find_ingots_pdf_url urljoin soup = Some (urljoin NALCO_URL h)"
    if none: "list_all (\<lambda>x. strict_href x = None) (find_all ''p'' soup)"
      and "a \<in> set (find_all_a_href soup)" and "dated_href a \<noteq> None" for a
  proof -
    from first_some_exists [of a "find_all_a_href soup" dated_href, OF that(2,3)] obtain h
      where h: "first_some dated_href (find_all_a_href soup) = Some h" ..
    from first_some_Some [OF h] obtain pre a' post where
      "find_all_a_href soup = pre @ a' # post" "list_all (\<lambda>x. dated_href x = None) pre"
      "dated_href a' = Some h" by blast
    moreover from none have "first_some strict_href (find_all ''p'' soup) = None"
      by (simp only: first_some_None)
    with h have "find_ingots_pdf_url urljoin soup = Some (urljoin NALCO_URL h)"
      by (simp add: find_ingots_pdf_url_def)
    ultimately show ?thesis by blast
  qed
  have tier3: "\<exists>pre a' post h. find_all_a_href soup = pre @ a' # post
          \<and> list_all (\<lambda>x. loose_href x = None) pre \<and> loose_href a' = Some h
          \<and> find_ingots_pdf_url urljoin soup = Some (urljoin NALCO_URL h)"
    if none: "list_all (\<lambda>x. strict_href x = None) (find_all ''p'' soup)"
      and none2: "list_all (\<lambda>x. dated_href x = None) (find_all_a_href soup)"
      and "a \<in> set (find_all_a_href soup)" and "loose_href a \<noteq> None" for a
  proof -
    from first_some_exists [of a "find_all_a_href soup" loose_href, OF that(3,4)] obtain h
      where h: "first_some loose_href (find_all_a_href soup) = Some h" ..
    from first_some_Some [OF h] obtain pre a' post where
      "find_all_a_href soup = pre @ a' # post" "list_all (\<lambda>x. loose_href x = None) pre"
      "loose_href a' = Some h" by blast
    moreover from none have "first_some strict_href (find_all ''p'' soup) = None"
      by (simp only: first_some_None)
    moreover from none2 have "first_some dated_href (find_all_a_href soup) = None"
      by (simp only: first_some_None)
    ultimately have "find_ingots_pdf_url urljoin soup = Some (urljoin NALCO_URL h)"
      using h by (simp add: find_ingots_pdf_url_def)
    with \<open>find_all_a_href soup = pre @ a' # post\<close> \<open>list_all (\<lambda>x. loose_href x = None) pre\<close>
      \<open>loose_href a' = Some h\<close> show ?thesis by blast
  qed
  have tier4: "find_ingots_pdf_url urljoin soup = None"
    if "list_all (\<lambda>x. strict_href x = None) (find_all ''p'' soup)"
      and "list_all (\<lambda>x. dated_href x = None) (find_all_a_href soup)"
      and "list_all (\<lambda>x. loose_href x = None) (find_all_a_href soup)"
  proof -
    from that have "first_some strict_href (find_all ''p'' soup) = None"
      "first_some dated_href (find_all_a_href soup) = None"
      "first_some loose_href (find_all_a_href soup) = None"
      by (simp_all only: first_some_None)
    then show ?thesis by (simp add: find_ingots_pdf_url_def)
  qed
  show ?thesis
  proof (intro conjI impI)
    assume "\<exists>pa \<in> set (find_all ''p'' soup). strict_href pa \<noteq> None"
    then show "\<exists>pre pa' post h. find_all ''p'' soup = pre @ pa' # post
          \<and> list_all (\<lambda>x. strict_href x = None) pre \<and> strict_href pa' = Some h
          \<and> find_ingots_pdf_url urljoin soup = Some (urljoin NALCO_URL h)"
      using tier1 by blast
  next
    assume "list_all (\<lambda>x. strict_href x = None) (find_all ''p'' soup)
        \<and> (\<exists>a \<in> set (find_all_a_href soup). dated_href a \<noteq> None)"
    then show "\<exists>pre a' post h. find_all_a_href soup = pre @ a' # post
          \<and> list_all (\<lambda>x. dated_href x = None) pre \<and> dated_href a' = Some h
          \<and> find_ingots_pdf_url urljoin soup = Some (urljoin NALCO_URL h)"
      using tier2 by blast
  next
    assume "list_all (\<lambda>x. strict_href x = None) (find_all ''p'' soup)
        \<and> list_all (\<lambda>x. dated_href x = None) (find_all_a_href soup)
        \<and> (\<exists>a \<in> set (find_all_a_href soup). loose_href a \<noteq> None)"
    then show "\<exists>pre a' post h. find_all_a_href soup = pre @ a' # post
          \<and> list_all (\<lambda>x. loose_href x = None) pre \<and> loose_href a' = Some h
          \<and> find_ingots_pdf_url urljoin soup = Some (urljoin NALCO_URL h)"
      using tier3 by blast
  next
    assume "list_all (\<lambda>x. strict_href x = None) (find_all ''p'' soup)
        \<and> list_all (\<lambda>x. dated_href x = None) (find_all_a_href soup)
        \<and> list_all (\<lambda>x. loose_href x = None) (find_all_a_href soup)"
    then show "find_ingots_pdf_url urljoin soup = None"
      using tier4 by blast
  qed
qed

theorem locator_tiers_in_order_witness:
  "((\<exists>pa \<in> set (find_all ''p'' page_nbsp). strict_href pa \<noteq> None)
     \<and> (\<exists>a \<in> set (find_all_a_href page_nbsp). dated_href a \<noteq> None)
     \<and> (\<exists>pre pa' post h. find_all ''p'' page_nbsp = pre @ pa' # post
          \<and> list_all (\<lambda>x. strict_href x = None) pre \<and> strict_href pa' = Some h
          \<and> find_ingots_pdf_url example_urljoin page_nbsp = Some (example_urljoin NALCO_URL h))
     \<and> find_ingots_pdf_url example_urljoin page_nbsp = Some ''https://nalcoindia.com/c/first.pdf'')
   \<and> (list_all (\<lambda>x. strict_href x = None) (find_all ''p'' page_dated)
     \<and> (\<exists>a \<in> set (find_all_a_href page_dated). dated_href a \<noteq> None)
     \<and> loose_href (hd (find_all_a_href page_dated)) = Some ''/c/list.pdf''
     \<and> (\<exists>pre a' post h. find_all_a_href page_dated = pre @ a' # post
          \<and> list_all (\<lambda>x. dated_href x = None) pre \<and> dated_href a' = Some h
          \<and> find_ingots_pdf_url example_urljoin page_dated = Some (example_urljoin NALCO_URL h))
     \<and> find_ingots_pdf_url example_urljoin page_dated = Some ''https://nalcoindia.com/c/INGOT-05-06-2024.PDF'')
   \<and> (list_all (\<lambda>x. strict_href x = None) (find_all ''p'' page_loose)
     \<and> list_all (\<lambda>x. dated_href x = None) (find_all_a_href page_loose)
     \<and> (\<exists>a \<in> set (find_all_a_href page_loose). loose_href a \<noteq> None)
     \<and> (\<exists>pre a' post h. find_all_a_href page_loose = pre @ a' # post
          \<and> list_all (\<lambda>x. loose_href x = None) pre \<and> loose_href a' = Some h
          \<and> find_ingots_pdf_url example_urljoin page_loose = Some (example_urljoin NALCO_URL h))
     \<and> find_ingots_pdf_url example_urljoin page_loose = Some ''https://nalcoindia.com/c/list.pdf'')
   \<and> (list_all (\<lambda>x. strict_href x = None) (find_all ''p'' page_none)
     \<and> list_all (\<lambda>x. dated_href x = None) (find_all_a_href page_none)
     \<and> list_all (\<lambda>x. loose_href x = None) (find_all_a_href page_none)
     \<and> find_ingots_pdf_url example_urljoin page_none = None)"
proof -
  have s1: "\<exists>pa \<in> set (find_all ''p'' page_nbsp). strict_href pa \<noteq> None"
    by code_simp
  have d1: "\<exists>a \<in> set (find_all_a_href page_nbsp). dated_href a \<noteq> None"
    by code_simp
  have r1: "find_ingots_pdf_url example_urljoin page_nbsp = Some ''https://nalcoindia.com/c/first.pdf''"
    by code_simp
  have s2: "list_all (\<lambda>x. strict_href x = None) (find_all ''p'' page_dated)"
    by code_simp
  have d2: "\<exists>a \<in> set (find_all_a_href page_dated). dated_href a \<noteq> None"
    by code_simp
  have l2: "loose_href (hd (find_all_a_href page_dated)) = Some ''/c/list.pdf''"
    by code_simp
  have r2: "find_ingots_pdf_url example_urljoin page_dated = Some ''https://nalcoindia.com/c/INGOT-05-06-2024.PDF''"
    by code_simp
  have s3: "list_all (\<lambda>x. strict_href x = None) (find_all ''p'' page_loose)"
    by code_simp
  have d3: "list_all (\<lambda>x. dated_href x = None) (find_all_a_href page_loose)"
    by code_simp
  have l3: "\<exists>a \<in> set (find_all_a_href page_loose). loose_href a \<noteq> None"
    by code_simp
  have r3: "find_ingots_pdf_url example_urljoin page_loose = Some ''https://nalcoindia.com/c/list.pdf''"
    by code_simp
  have s4: "list_all (\<lambda>x. strict_href x = None) (find_all ''p'' page_none)"
    by code_simp
  have d4: "list_all (\<lambda>x. dated_href x = None) (find_all_a_href page_none)"
    by code_simp
  have l4: "list_all (\<lambda>x. loose_href x = None) (find_all_a_href page_none)"
    by code_simp
  note t1 = locator_tiers_in_order [of page_nbsp example_urljoin, THEN conjunct1, rule_format, OF s1]
  note t2 = locator_tiers_in_order [of page_dated example_urljoin, THEN conjunct2, THEN conjunct1,
      rule_format, OF conjI [OF s2 d2]]
  note t3 = locator_tiers_in_order [of page_loose example_urljoin, THEN conjunct2, THEN conjunct2,
      THEN conjunct1, rule_format, OF conjI [OF s3 conjI [OF d3 l3]]]
  note t4 = locator_tiers_in_order [of page_none example_urljoin, THEN conjunct2, THEN conjunct2,
      THEN conjunct2, rule_format, OF conjI [OF s4 conjI [OF d4 l4]]]
  from s1 d1 t1 r1 s2 d2 l2 t2 r2 s3 d3 l3 t3 r3 s4 d4 l4 t4 show ?thesis
    by (intro conjI)
qed

subsection \<open>DateResolver\<close>

lemma digit_val_range: "is_digit c \<Longrightarrow> 0 \<le> digit_val c \<and> digit_val c \<le> 9"
  by (auto simp: digit_val_def is_digit_def)

lemma digit_char_digit_val: "is_digit c \<Longrightarrow> digit_char (digit_val c) = c"
  by (auto simp: digit_val_def digit_char_def is_digit_def)

lemma digit_char_mod: "digit_char (n mod 10) = digit_char n"
  by (simp add: digit_char_def)

lemma digit_char_step:
  assumes "0 \<le> b" "b \<le> 9"
  shows "digit_char (10 * a + b) = digit_char b" and "(10 * a + b) div 10 = a"
proof -
  from assms have "(10 * a + b) mod 10 = b mod 10" by presburger
  then show "digit_char (10 * a + b) = digit_char b" by (simp add: digit_char_def)
  from assms show "(10 * a + b) div 10 = a" by presburger
qed

lemma pad2_int_of_digits:
  assumes "length s = 2" "all_digits s"
  shows "pad2 (int_of_digits s) = s"
proof -
  from assms(1) obtain a b where s: "s = [a, b]"
    by (metis (no_types, opaque_lifting) Suc_length_conv length_0_conv numeral_2_eq_2)
  with assms(2) have d: "is_digit a" "is_digit b" by (simp_all add: all_digits_def)
  have n: "int_of_digits s = 10 * digit_val a + digit_val b"
    by (simp add: s int_of_digits_def)
  from digit_val_range [OF d(2)] have b: "0 \<le> digit_val b" "digit_val b \<le> 9" by simp_all
  show ?thesis
    unfolding n pad2_def digit_char_step [OF b]
    by (simp add: s digit_char_digit_val d)
qed

lemma pad4_int_of_digits:
  assumes "length s = 4" "all_digits s"
  shows "pad4 (int_of_digits s) = s"
proof -
  from assms(1) obtain a b c d where s: "s = [a, b, c, d]"
    by (auto simp: length_Suc_conv numeral_eq_Suc)
  with assms(2) have dg: "is_digit a" "is_digit b" "is_digit c" "is_digit d"
    by (simp_all add: all_digits_def)
  define n1 where "n1 = 10 * digit_val a + digit_val b"
  define n2 where "n2 = 10 * n1 + digit_val c"
  have n: "int_of_digits s = 10 * n2 + digit_val d"
    by (simp add: s int_of_digits_def n1_def n2_def)
  from digit_val_range [OF dg(2)] have b: "0 \<le> digit_val b" "digit_val b \<le> 9" by simp_all
  from digit_val_range [OF dg(3)] have c: "0 \<le> digit_val c" "digit_val c \<le> 9" by simp_all
  from digit_val_range [OF dg(4)] have d: "0 \<le> digit_val d" "digit_val d \<le> 9" by simp_all
  have d1: "(10 * n2 + digit_val d) div 10 = n2" by (rule digit_char_step [OF d])
  have d2: "(10 * n2 + digit_val d) div 100 = n1"
  proof -
    have "(10 * n2 + digit_val d) div 100 = ((10 * n2 + digit_val d) div 10) div 10"
      by (simp add: div_mult2_eq [symmetric])
    also have "\<dots> = n2 div 10" by (simp only: d1)
    also have "\<dots> = n1" unfolding n2_def by (rule digit_char_step [OF c])
    finally show ?thesis .
  qed
  have d3: "(10 * n2 + digit_val d) div 1000 = digit_val a"
  proof -
    have "(10 * n2 + digit_val d) div 1000 = ((10 * n2 + digit_val d) div 100) div 10"
      by (simp add: div_mult2_eq [symmetric])
    also have "\<dots> = n1 div 10" by (simp only: d2)
    also have "\<dots> = digit_val a" unfolding n1_def by (rule digit_char_step [OF b])
    finally show ?thesis .
  qed
  have c1: "digit_char (10 * n2 + digit_val d) = digit_char (digit_val d)"
    by (rule digit_char_step [OF d])
  have c2: "digit_char n2 = digit_char (digit_val c)"
    unfolding n2_def by (rule digit_char_step [OF c])
  have c3: "digit_char n1 = digit_char (digit_val b)"
    unfolding n1_def by (rule digit_char_step [OF b])
  show ?thesis
    unfolding n pad4_def d1 d2 d3 c1 c2 c3
    by (simp add: s digit_char_digit_val dg)
qed

lemma datey_at_groups:
  assumes "datey_at m = Some (dd, mm, yyyy)"
  shows "length dd = 2 \<and> all_digits dd \<and> length mm = 2 \<and> all_digits mm
         \<and> length yyyy = 4 \<and> all_digits yyyy"
  using assms by (auto simp: datey_at_def split: if_splits)

lemma DATEY_groups:
  assumes "DATEY_PDF_RE_search s = Some (dd, mm, yyyy)"
  shows "length dd = 2 \<and> all_digits dd \<and> length mm = 2 \<and> all_digits mm
         \<and> length yyyy = 4 \<and> all_digits yyyy"
  using assms datey_at_groups unfolding DATEY_PDF_RE_search_def Let_def by blast

lemma str_int_four_digits:
  assumes "1000 \<le> n" "n \<le> 9999"
  shows "str_int n = pad4 n"
proof -
  have d: "n div 10 div 10 = n div 100" "n div 100 div 10 = n div 1000"
    by (simp_all add: div_mult2_eq [symmetric])
  from assms have b: "\<not> n < 10" "\<not> n div 10 < 10" "\<not> n div 100 < 10" "n div 1000 < 10"
    by linarith+
  have "str_nat n = str_nat (n div 10) @ [digit_char n]"
    using b(1) by (subst str_nat.simps) simp
  also have "str_nat (n div 10) = str_nat (n div 100) @ [digit_char (n div 10)]"
    using b(2) by (subst str_nat.simps) (simp add: d)
  also have "str_nat (n div 100) = str_nat (n div 1000) @ [digit_char (n div 100)]"
    using b(3) by (subst str_nat.simps) (simp add: d)
  also have "str_nat (n div 1000) = [digit_char (n div 1000)]"
    using b(4) by (subst str_nat.simps) simp
  finally show ?thesis
    using assms by (simp add: str_int_def pad4_def)
qed

lemma strftime_make_date:
  assumes "make_date y m d = Some dt" and "1000 \<le> y"
  shows "strftime_dmy dt = pad2 d @ ''-'' @ pad2 m @ ''-'' @ pad4 y"
proof -
  from assms(1) have "y \<le> 9999" and dt: "dt = \<lparr>year = y, month = m, day = d\<rparr>"
    by (auto simp: make_date_def split: if_splits)
  with assms(2) show ?thesis
    by (simp add: strftime_dmy_def str_int_four_digits)
qed

text \<open>
  What the function does for every file name: when the name matches the dated pattern, its
  digits are a calendar date and the year is 1000 or later, the result is that date as it
  stands in the name; when the name does not match, or matches with digits that are no
  calendar date (as in \<open>Ingot-31-02-2024.pdf\<close>), the result is the current date in the same
  format. The function is total: the ValueError of an invalid date is the \<open>None\<close> of
  \<open>make_date\<close>, which it handles.
\<close>

lemma date_resolver_from_1000:
  "(DATEY_PDF_RE_search name = Some (dd, mm, yyyy)
      \<and> make_date (int_of_digits yyyy) (int_of_digits mm) (int_of_digits dd) \<noteq> None
      \<and> 1000 \<le> int_of_digits yyyy
    \<longrightarrow> parse_circular_date_from_filename today name = dd @ ''-'' @ mm @ ''-'' @ yyyy)
   \<and> (DATEY_PDF_RE_search name = Some (dd, mm, yyyy)
      \<and> make_date (int_of_digits yyyy) (int_of_digits mm) (int_of_digits dd) = None
    \<longrightarrow> parse_circular_date_from_filename today name = strftime_dmy today)
   \<and> (DATEY_PDF_RE_search name = None
    \<longrightarrow> parse_circular_date_from_filename today name = strftime_dmy today)
   \<and> parse_circular_date_from_filename today ''Ingot-31-02-2024.pdf'' = strftime_dmy today"
proof (intro conjI impI)
  assume a: "DATEY_PDF_RE_search name = Some (dd, mm, yyyy)
      \<and> make_date (int_of_digits yyyy) (int_of_digits mm) (int_of_digits dd) \<noteq> None
      \<and> 1000 \<le> int_of_digits yyyy"
  then obtain dt where dt: "make_date (int_of_digits yyyy) (int_of_digits mm) (int_of_digits dd) = Some dt"
    by blast
  from a have y: "1000 \<le> int_of_digits yyyy" by blast
  from a DATEY_groups have g: "length dd = 2" "all_digits dd" "length mm = 2" "all_digits mm"
    "length yyyy = 4" "all_digits yyyy" by blast+
  have "parse_circular_date_from_filename today name = strftime_dmy dt"
    using a dt by (simp add: parse_circular_date_from_filename_def)
  also have "\<dots> = dd @ ''-'' @ mm @ ''-'' @ yyyy"
    unfolding strftime_make_date [OF dt y]
    by (simp only: pad2_int_of_digits [OF g(1,2)] pad2_int_of_digits [OF g(3,4)]
        pad4_int_of_digits [OF g(5,6)])
  finally show "parse_circular_date_from_filename today name = dd @ ''-'' @ mm @ ''-'' @ yyyy" .
next
  assume "DATEY_PDF_RE_search name = Some (dd, mm, yyyy)
      \<and> make_date (int_of_digits yyyy) (int_of_digits mm) (int_of_digits dd) = None"
  then show "parse_circular_date_from_filename today name = strftime_dmy today"
    by (simp add: parse_circular_date_from_filename_def)
next
  assume "DATEY_PDF_RE_search name = None"
  then show "parse_circular_date_from_filename today name = strftime_dmy today"
    by (simp add: parse_circular_date_from_filename_def)
next
  have "DATEY_PDF_RE_search ''Ingot-31-02-2024.pdf'' = Some (''31'', ''02'', ''2024'')"
    by code_simp
  moreover have "make_date (int_of_digits ''2024'') (int_of_digits ''02'') (int_of_digits ''31'') = None"
    by code_simp
  ultimately show "parse_circular_date_from_filename today ''Ingot-31-02-2024.pdf'' = strftime_dmy today"
    by (simp add: parse_circular_date_from_filename_def)
qed

text \<open>
  C7 says that the embedded date is returned whenever the name matches and its digits are
  a calendar date, and the function's docstring says that it extracts \<open>DD-MM-YYYY\<close>. The
  code formats the date again instead of returning the digits of the name, and \<open>%Y\<close>
  does not pad the year: for \<open>Ingot-01-01-0999.pdf\<close>, whose digits are the calendar date
  1 January 999, the result is \<open>01-01-999\<close>, which is not the embedded \<open>01-01-0999\<close> and
  has no four-digit year.
\<close>

theorem date_resolver_year_0999:
  "DATEY_PDF_RE_search ''Ingot-01-01-0999.pdf'' = Some (''01'', ''01'', ''0999'')
   \<and> make_date (int_of_digits ''0999'') (int_of_digits ''01'') (int_of_digits ''01'')
       = Some \<lparr>year = 999, month = 1, day = 1\<rparr>
   \<and> parse_circular_date_from_filename \<lparr>year = 2026, month = 11, day = 4\<rparr> ''Ingot-01-01-0999.pdf''
       = ''01-01-999''
   \<and> parse_circular_date_from_filename \<lparr>year = 2026, month = 11, day = 4\<rparr> ''Ingot-01-01-0999.pdf''
       \<noteq> ''01-01-0999''"
proof -
  have a: "DATEY_PDF_RE_search ''Ingot-01-01-0999.pdf'' = Some (''01'', ''01'', ''0999'')"
    by code_simp
  have b: "make_date (int_of_digits ''0999'') (int_of_digits ''01'') (int_of_digits ''01'')
       = Some \<lparr>year = 999, month = 1, day = 1\<rparr>"
    by code_simp
  have c: "parse_circular_date_from_filename \<lparr>year = 2026, month = 11, day = 4\<rparr> ''Ingot-01-01-0999.pdf''
       = ''01-01-999''"
    by code_simp
  from c have d: "parse_circular_date_from_filename \<lparr>year = 2026, month = 11, day = 4\<rparr> ''Ingot-01-01-0999.pdf''
       \<noteq> ''01-01-0999''"
    by simp
  from a b c d show ?thesis
    by (intro conjI)
qed

subsection \<open>RecordExtractor\<close>

lemma upper_letters_fixed: "list_all (\<lambda>d. upper_char d = [Latin1 d]) (CHR ''S'' # upper_letters)"
  by code_simp

lemma lower_letters_moved:
  "list_all (\<lambda>c. upper_char c \<noteq> [Latin1 c]) (lower_letters @ [CHR 0xDF, CHR 0xB5, CHR 0xFF])"
  by code_simp

lemma upper_char_cased: "upper_cased (upper_char c)"
proof (cases "map_of (zip lower_letters upper_letters) c")
  case None
  then have "upper_char c = [Latin1 c]" if "c \<noteq> CHR 0xDF" "c \<noteq> CHR 0xB5" "c \<noteq> CHR 0xFF"
    using that by (simp add: upper_char_def)
  moreover from upper_letters_fixed have "upper_char CHR ''S'' = [Latin1 CHR ''S'']"
    by simp
  ultimately show ?thesis
    using None by (simp add: upper_cased_def upper_char_def)
next
  case (Some d)
  then have "(c, d) \<in> set (zip lower_letters upper_letters)"
    by (rule map_of_SomeD)
  then have "d \<in> set upper_letters"
    by (rule set_zip_rightD)
  with upper_letters_fixed have "upper_char d = [Latin1 d]"
    by (simp add: list_all_iff)
  with Some show ?thesis
    by (simp add: upper_cased_def upper_char_def [of c])
qed

lemma upper_cased_upper: "upper_cased (upper s)"
proof -
  have "upper_cased (concat (map upper_char s))"
    using upper_char_cased by (induction s) (simp_all add: upper_cased_def)
  then show ?thesis by (simp add: upper_def)
qed

lemma upper_cased_no_lower:
  assumes "upper_cased t"
  shows "list_all (\<lambda>c. Latin1 c \<notin> set t) (lower_letters @ [CHR 0xDF, CHR 0xB5, CHR 0xFF])"
proof -
  have "Latin1 c \<notin> set t" if "c \<in> set (lower_letters @ [CHR 0xDF, CHR 0xB5, CHR 0xFF])" for c
  proof
    assume "Latin1 c \<in> set t"
    with assms have "upper_char c = [Latin1 c]"
      by (auto simp: upper_cased_def list_all_iff)
    moreover from lower_letters_moved that have "upper_char c \<noteq> [Latin1 c]"
      unfolding list_all_iff by blast
    ultimately show False by simp
  qed
  then show ?thesis
    unfolding list_all_iff by blast
qed

lemma first_some_mem:
  "first_some f xs = Some y \<Longrightarrow> \<exists>x \<in> set xs. f x = Some y"
  by (induction xs) (auto split: option.splits)

lemma find_Some_mem: "List.find P xs = Some x \<Longrightarrow> x \<in> set xs"
  by (induction xs) (auto split: if_splits)

lemma scan_row_Description:
  assumes "scan_row row = Some r"
  shows "\<exists>d. Description r = upper d \<and>
           (d = ''ALUMINIUM INGOT'' \<or>
            d \<in> set (map (\<lambda>c. strip (case c of None \<Rightarrow> [] | Some s \<Rightarrow> s)) row))"
proof -
  let ?cells = "map (\<lambda>c. strip (case c of None \<Rightarrow> [] | Some s \<Rightarrow> s)) row"
  let ?idx = "length (takeWhile (\<lambda>c. \<not> is_ie07 c) ?cells)"
  let ?found = "List.find (\<lambda>c. c \<noteq> [] \<and> \<not> is_numeric c) (rev (take ?idx ?cells))"
  let ?desc = "case ?found of Some c \<Rightarrow> c | None \<Rightarrow> []"
  from assms have r: "Description r = upper (if ?desc = [] then ''ALUMINIUM INGOT'' else ?desc)"
    by (auto simp: scan_row_def Let_def split: if_splits)
  show ?thesis
  proof (cases ?found)
    case None
    with r show ?thesis by auto
  next
    case (Some c)
    then have "c \<in> set (rev (take ?idx ?cells))"
      by (rule find_Some_mem)
    then have "c \<in> set (take ?idx ?cells)"
      by simp
    then have "c \<in> set ?cells"
      by (rule in_set_takeD)
    with r Some show ?thesis by auto
  qed
qed

lemma scan_line_Description:
  assumes "scan_line line = Some r"
  shows "Description r = upper (strip (case search_desc line of Some d \<Rightarrow> d | None \<Rightarrow> ''ALUMINIUM INGOT''))"
  using assms by (auto simp: scan_line_def Let_def split: if_splits)

lemma scan_tables_Description:
  assumes "scan_tables ts = Some r"
  shows "\<exists>d. Description r = upper d"
proof -
  from assms have "\<exists>t \<in> set ts. first_some scan_row t = Some r"
    unfolding scan_tables_def by (rule first_some_mem)
  then obtain t where "first_some scan_row t = Some r" by blast
  then have "\<exists>row \<in> set t. scan_row row = Some r"
    by (rule first_some_mem)
  then obtain row where "scan_row row = Some r" by blast
  from scan_row_Description [OF this] show ?thesis by blast
qed

lemma scan_lines_Description:
  assumes "scan_lines ws = Some r"
  shows "\<exists>d. Description r = upper d"
proof -
  from assms have "\<exists>kv \<in> set (group_lines ws). scan_line (text_line (snd kv)) = Some r"
    unfolding scan_lines_def by (rule first_some_mem)
  then obtain kv :: "int \<times> word list" where "scan_line (text_line (snd kv)) = Some r" by blast
  from scan_line_Description [OF this] show ?thesis by blast
qed

lemma extract_Description:
  "extract_row_ie07 pages = Inr r \<Longrightarrow> \<exists>d. Description r = upper d"
proof (induction pages)
  case Nil
  then show ?case by simp
next
  case (Cons page pages)
  then show ?case
    by (auto split: option.splits dest: scan_tables_Description scan_lines_Description)
qed

text \<open>
  C10: the Description of every record the extractor returns is upper-cased: it is the
  result of \<open>str.upper()\<close>, which \<open>str.upper()\<close> leaves as it is, and it holds no letter
  that has another upper-case form. In the table strategy it is the upper-cased text of a
  (stripped) cell of the row, or the default; in the line scan it is the matched substring,
  or the default, stripped and upper-cased.
\<close>

theorem description_upper_cased:
  "(extract_row_ie07 pages = Inr r \<longrightarrow>
      (\<exists>d. Description r = upper d) \<and> upper_cased (Description r)
      \<and> list_all (\<lambda>c. Latin1 c \<notin> set (Description r))
           (lower_letters @ [CHR 0xDF, CHR 0xB5, CHR 0xFF]))
   \<and> (scan_row row = Some r \<longrightarrow>
        (\<exists>d. Description r = upper d \<and>
           (d = ''ALUMINIUM INGOT'' \<or>
            d \<in> set (map (\<lambda>c. strip (case c of None \<Rightarrow> [] | Some s \<Rightarrow> s)) row))))
   \<and> (scan_line line = Some r \<longrightarrow>
        Description r = upper (strip (case search_desc line of Some d \<Rightarrow> d | None \<Rightarrow> ''ALUMINIUM INGOT'')))"
proof (intro conjI impI)
  assume "extract_row_ie07 pages = Inr r"
  from extract_Description [OF this] obtain d where d: "Description r = upper d" ..
  then show "\<exists>d. Description r = upper d" ..
  show c: "upper_cased (Description r)"
    unfolding d by (rule upper_cased_upper)
  show "list_all (\<lambda>c. Latin1 c \<notin> set (Description r)) (lower_letters @ [CHR 0xDF, CHR 0xB5, CHR 0xFF])"
    using c by (rule upper_cased_no_lower)
next
  assume "scan_row row = Some r"
  then show "\<exists>d. Description r = upper d \<and>
           (d = ''ALUMINIUM INGOT'' \<or>
            d \<in> set (map (\<lambda>c. strip (case c of None \<Rightarrow> [] | Some s \<Rightarrow> s)) row))"
    by (rule scan_row_Description)
next
  assume "scan_line line = Some r"
  then show "Description r = upper (strip (case search_desc line of Some d \<Rightarrow> d | None \<Rightarrow> ''ALUMINIUM INGOT''))"
    by (rule scan_line_Description)
qed

theorem description_upper_cased_witness:
  "extract_row_ie07 [page_umlaut]
     = Inr \<lparr>Description = latin1 (''GIESSBARREN AL'' @ [CHR 0xDC] @ ''MINIUM''), Product_Code = ''IE07'',
            Basic_Price = ''270000''\<rparr>
   \<and> (\<exists>d. latin1 (''GIESSBARREN AL'' @ [CHR 0xDC] @ ''MINIUM'') = upper d)
   \<and> upper_cased (latin1 (''GIESSBARREN AL'' @ [CHR 0xDC] @ ''MINIUM''))
   \<and> list_all (\<lambda>c. Latin1 c \<notin> set (latin1 (''GIESSBARREN AL'' @ [CHR 0xDC] @ ''MINIUM'')))
        (lower_letters @ [CHR 0xDF, CHR 0xB5, CHR 0xFF])
   \<and> scan_row [Some ''1'', Some ''Aluminium Ingot'', Some ''IE07'', Some ''270,000'']
     = Some \<lparr>Description = latin1 ''ALUMINIUM INGOT'', Product_Code = ''IE07'', Basic_Price = ''270000''\<rparr>
   \<and> (\<exists>d. latin1 ''ALUMINIUM INGOT'' = upper d \<and>
         (d = ''ALUMINIUM INGOT'' \<or>
          d \<in> set (map (\<lambda>c. strip (case c of None \<Rightarrow> [] | Some s \<Rightarrow> s))
                     [Some ''1'', Some ''Aluminium Ingot'', Some ''IE07'', Some ''270,000''])))
   \<and> scan_line ''1 Standard ingots IE07 268250''
     = Some \<lparr>Description = latin1 ''STANDARD INGOTS'', Product_Code = ''IE07'', Basic_Price = ''268250''\<rparr>
   \<and> latin1 ''STANDARD INGOTS''
     = upper (strip (case search_desc ''1 Standard ingots IE07 268250'' of
                       Some d \<Rightarrow> d | None \<Rightarrow> ''ALUMINIUM INGOT''))"
proof -
  let ?u = "latin1 (''GIESSBARREN AL'' @ [CHR 0xDC] @ ''MINIUM'')"
  let ?ru = "\<lparr>Description = ?u, Product_Code = ''IE07'', Basic_Price = ''270000''\<rparr>"
  let ?r = "\<lparr>Description = latin1 ''ALUMINIUM INGOT'', Product_Code = ''IE07'', Basic_Price = ''270000''\<rparr>"
  let ?row = "[Some ''1'', Some ''Aluminium Ingot'', Some ''IE07'', Some ''270,000'']"
  let ?r' = "\<lparr>Description = latin1 ''STANDARD INGOTS'', Product_Code = ''IE07'', Basic_Price = ''268250''\<rparr>"
  let ?line = "''1 Standard ingots IE07 268250''"
  have a: "extract_row_ie07 [page_umlaut] = Inr ?ru"
    by code_simp
  have b: "scan_row ?row = Some ?r"
    by code_simp
  have c: "scan_line ?line = Some ?r'"
    by code_simp
  from description_upper_cased [of "[page_umlaut]" ?ru ?row ?line] a
  have 1: "\<exists>d. ?u = upper d"
    and 2: "upper_cased ?u"
    and 3: "list_all (\<lambda>c. Latin1 c \<notin> set ?u) (lower_letters @ [CHR 0xDF, CHR 0xB5, CHR 0xFF])"
    by simp_all
  from description_upper_cased [of "[]" ?r ?row ?line] b
  have 4: "\<exists>d. latin1 ''ALUMINIUM INGOT'' = upper d \<and>
         (d = ''ALUMINIUM INGOT'' \<or>
          d \<in> set (map (\<lambda>c. strip (case c of None \<Rightarrow> [] | Some s \<Rightarrow> s)) ?row))"
    by simp
  from description_upper_cased [of "[]" ?r' "[]" ?line] c
  have 5: "latin1 ''STANDARD INGOTS''
     = upper (strip (case search_desc ?line of Some d \<Rightarrow> d | None \<Rightarrow> ''ALUMINIUM INGOT''))"
    by simp
  from a 1 2 3 b 4 c 5 show ?thesis
    by (intro conjI)
qed

lemma extract_row_ie07_append:
  assumes "list_all (\<lambda>p. scan_tables (page_tables p) = None \<and> scan_lines (extract_words p) = None) pre"
  shows "extract_row_ie07 (pre @ rest) = extract_row_ie07 rest"
  using assms by (induction pre) simp_all

text \<open>
  C1, as stated, fails: the line scan of a page runs before the tables of the next page.
  In \<open>doc_line_then_table\<close> a table row of page 2 is accepted by the table strategy, and
  the extractor returns the record of the line scan of page 1.
\<close>

theorem line_scan_before_later_table:
  "scan_tables (page_tables (doc_line_then_table ! 1))
      = Some \<lparr>Description = latin1 ''ALUMINIUM INGOT'', Product_Code = ''IE07'', Basic_Price = ''270000''\<rparr>
   \<and> extract_row_ie07 doc_line_then_table
      = Inr \<lparr>Description = latin1 ''ALUMINIUM INGOT'', Product_Code = ''IE07'', Basic_Price = ''268250''\<rparr>"
  by code_simp

text \<open>
  C1, amended: the pages are scanned in order, and on each page the table strategy is
  attempted before the line scan of that same page. After pages on which neither strategy
  accepts anything, a page whose tables yield an accepted result gives that result, whatever
  the line scan of that page or any later page would give; a page whose tables yield nothing
  and whose lines yield a result gives the line result; and when no page yields anything the
  extraction fails with a RuntimeError.
\<close>

theorem extract_page_order:
  assumes "list_all (\<lambda>p. scan_tables (page_tables p) = None \<and> scan_lines (extract_words p) = None) pre"
  shows "(scan_tables (page_tables page) = Some r \<longrightarrow> extract_row_ie07 (pre @ page # post) = Inr r)
       \<and> (scan_tables (page_tables page) = None \<and> scan_lines (extract_words page) = Some r
            \<longrightarrow> extract_row_ie07 (pre @ page # post) = Inr r)
       \<and> (\<exists>msg. extract_row_ie07 pre = Inl (RuntimeError msg))"
proof (intro conjI impI)
  assume "scan_tables (page_tables page) = Some r"
  then show "extract_row_ie07 (pre @ page # post) = Inr r"
    by (simp add: extract_row_ie07_append [OF assms])
next
  assume "scan_tables (page_tables page) = None \<and> scan_lines (extract_words page) = Some r"
  then show "extract_row_ie07 (pre @ page # post) = Inr r"
    by (simp add: extract_row_ie07_append [OF assms])
next
  from extract_row_ie07_append [OF assms, of "[]"]
  show "\<exists>msg. extract_row_ie07 pre = Inl (RuntimeError msg)" by simp
qed

theorem extract_page_order_witness:
  "list_all (\<lambda>p. scan_tables (page_tables p) = None \<and> scan_lines (extract_words p) = None) [page_empty]
   \<and> scan_tables (page_tables page_table)
       = Some \<lparr>Description = latin1 ''ALUMINIUM INGOT'', Product_Code = ''IE07'', Basic_Price = ''270000''\<rparr>
   \<and> extract_row_ie07 ([page_empty] @ page_table # [page_line])
       = Inr \<lparr>Description = latin1 ''ALUMINIUM INGOT'', Product_Code = ''IE07'', Basic_Price = ''270000''\<rparr>
   \<and> scan_tables (page_tables page_line) = None
   \<and> scan_lines (extract_words page_line)
       = Some \<lparr>Description = latin1 ''ALUMINIUM INGOT'', Product_Code = ''IE07'', Basic_Price = ''268250''\<rparr>
   \<and> extract_row_ie07 ([page_empty] @ page_line # [page_table])
       = Inr \<lparr>Description = latin1 ''ALUMINIUM INGOT'', Product_Code = ''IE07'', Basic_Price = ''268250''\<rparr>
   \<and> (\<exists>msg. extract_row_ie07 [page_empty] = Inl (RuntimeError msg))"
proof -
  let ?rt = "\<lparr>Description = latin1 ''ALUMINIUM INGOT'', Product_Code = ''IE07'', Basic_Price = ''270000''\<rparr>"
  let ?rl = "\<lparr>Description = latin1 ''ALUMINIUM INGOT'', Product_Code = ''IE07'', Basic_Price = ''268250''\<rparr>"
  have h: "list_all (\<lambda>p. scan_tables (page_tables p) = None \<and> scan_lines (extract_words p) = None) [page_empty]"
    by code_simp
  have t: "scan_tables (page_tables page_table) = Some ?rt"
    by code_simp
  have l1: "scan_tables (page_tables page_line) = None"
    by code_simp
  have l2: "scan_lines (extract_words page_line) = Some ?rl"
    by code_simp
  from extract_page_order [OF h, of page_table ?rt "[page_line]"] t
  have 1: "extract_row_ie07 ([page_empty] @ page_table # [page_line]) = Inr ?rt"
    and 3: "\<exists>msg. extract_row_ie07 [page_empty] = Inl (RuntimeError msg)"
    by blast+
  from extract_page_order [OF h, of page_line ?rl "[page_table]"] l1 l2
  have 2: "extract_row_ie07 ([page_empty] @ page_line # [page_table]) = Inr ?rl"
    by blast
  from h t 1 l1 l2 2 3 show ?thesis
    by (intro conjI)
qed

subsection \<open>LedgerStore\<close>

lemma set_map_filter: "set (List.map_filter f xs) = {k. \<exists>x \<in> set xs. f x = Some k}"
  by (induction xs) (auto simp: List.map_filter_simps split: option.splits)

lemma mset_map_filter: "mset xs = mset ys \<Longrightarrow> set (List.map_filter f xs) = set (List.map_filter f ys)"
  by (simp add: set_map_filter) (metis set_mset_mset)

lemma next_slno_Max:
  assumes "r \<in> set df" "col_Sl_no r = Some k"
  shows "next_slno df = Max {n. \<exists>x \<in> set df. col_Sl_no x = Some n} + 1"
proof -
  from assms have "k \<in> set (List.map_filter col_Sl_no df)"
    by (auto simp: set_map_filter)
  then have "List.map_filter col_Sl_no df \<noteq> []" by auto
  then show ?thesis
    by (simp add: next_slno_def set_map_filter)
qed

lemma next_slno_none:
  assumes "list_all (\<lambda>r. col_Sl_no r = None) df"
  shows "next_slno df = 1"
proof -
  from assms have "set (List.map_filter col_Sl_no df) = {}"
    by (auto simp: set_map_filter list_all_iff)
  then show ?thesis by (simp add: next_slno_def)
qed

lemma next_slno_perm: "mset df = mset df' \<Longrightarrow> next_slno df = next_slno df'"
  using mset_map_filter [of df df' col_Sl_no]
  by (simp add: next_slno_def Let_def) (metis set_empty)

lemma assign_date_snd: "map snd (assign_date lib df) = df"
  by (simp add: assign_date_def)

lemma assign_date_length: "length (assign_date lib df) = length df"
  by (simp add: assign_date_def)

lemma sort_values_mset: "mset (sort_values kdf) = mset kdf"
  by (simp add: sort_values_def)

lemma sort_and_format_df_slno:
  "map col_Sl_no (sort_and_format_df lib df) = map (\<lambda>dr. col_Sl_no (snd dr)) (sort_values (assign_date lib df))"
proof -
  define sorted_df where "sorted_df = map snd (sort_values (assign_date lib df))"
  define priced where
    "priced = map (\<lambda>r. r\<lparr>col_Basic_Price := to_numeric_round lib (col_Basic_Price r)\<rparr>) sorted_df"
  have "map col_Sl_no (sort_and_format_df lib df)
          = map (\<lambda>dr. col_Sl_no (snd dr)) (assign_date lib priced)"
    by (simp add: sort_and_format_df_def Let_def sorted_df_def priced_def comp_def)
  also have "\<dots> = map col_Sl_no (map snd (assign_date lib priced))"
    by (simp add: comp_def)
  also have "\<dots> = map col_Sl_no priced"
    by (simp only: assign_date_snd)
  also have "\<dots> = map col_Sl_no sorted_df"
    by (simp add: priced_def comp_def)
  also have "\<dots> = map (\<lambda>dr. col_Sl_no (snd dr)) (sort_values (assign_date lib df))"
    by (simp add: sorted_df_def comp_def)
  finally show ?thesis .
qed

lemma sort_and_format_df_mset_slno:
  "mset (map col_Sl_no (sort_and_format_df lib df)) = mset (map col_Sl_no df)"
proof -
  have "mset (map col_Sl_no (sort_and_format_df lib df))
          = image_mset (\<lambda>dr. col_Sl_no (snd dr)) (mset (sort_values (assign_date lib df)))"
    by (simp add: sort_and_format_df_slno)
  also have "\<dots> = image_mset (\<lambda>dr. col_Sl_no (snd dr)) (mset (assign_date lib df))"
    by (simp only: sort_values_mset)
  also have "\<dots> = mset (map col_Sl_no (map snd (assign_date lib df)))"
    by (simp add: comp_def)
  also have "\<dots> = mset (map col_Sl_no df)"
    by (simp only: assign_date_snd)
  finally show ?thesis .
qed

lemma sort_and_format_df_image_slno:
  "image_mset col_Sl_no (mset (sort_and_format_df lib df)) = image_mset col_Sl_no (mset df)"
  using sort_and_format_df_mset_slno [of lib df] by simp

lemma sort_and_format_df_length: "length (sort_and_format_df lib df) = length df"
  using sort_and_format_df_mset_slno [of lib df, THEN arg_cong, of size] by simp

text \<open>
  C5: the number given to the new row is 1 when no row of the ledger has a number (in
  particular when the ledger is empty or does not exist), and otherwise the greatest
  number in the ledger plus 1; it depends on the rows only, not on their order. The saved
  ledger has the numbers of the old rows and that number, and one row more.
\<close>

theorem append_assigns_next_slno:
  "(list_all (\<lambda>r. col_Sl_no r = None) df \<longrightarrow> next_slno df = 1)
   \<and> (r \<in> set df \<and> col_Sl_no r = Some k \<longrightarrow>
        next_slno df = Max {n. \<exists>x \<in> set df. col_Sl_no x = Some n} + 1 \<and> k < next_slno df)
   \<and> (mset df = mset df' \<longrightarrow> next_slno df = next_slno df')
   \<and> mset (map col_Sl_no (fst (append_to_excel lib (Some df) desc code price circ_date link)))
       = mset (map col_Sl_no df) + {#Some (next_slno df)#}
   \<and> snd (append_to_excel lib (Some df) desc code price circ_date link) = int (length df) + 1
   \<and> map col_Sl_no (fst (append_to_excel lib None desc code price circ_date link)) = [Some 1]"
proof (intro conjI impI)
  assume "list_all (\<lambda>r. col_Sl_no r = None) df"
  then show "next_slno df = 1" by (rule next_slno_none)
next
  assume a: "r \<in> set df \<and> col_Sl_no r = Some k"
  then have m: "next_slno df = Max {n. \<exists>x \<in> set df. col_Sl_no x = Some n} + 1"
    using next_slno_Max by blast
  have fin: "finite {n. \<exists>x \<in> set df. col_Sl_no x = Some n}"
    using finite_set [of "List.map_filter col_Sl_no df"] by (simp only: set_map_filter)
  from a have "k \<in> {n. \<exists>x \<in> set df. col_Sl_no x = Some n}" by blast
  with fin have "k \<le> Max {n. \<exists>x \<in> set df. col_Sl_no x = Some n}" by (rule Max_ge)
  with m show "k < next_slno df"
    by simp
  from m show "next_slno df = Max {n. \<exists>x \<in> set df. col_Sl_no x = Some n} + 1" .
next
  assume "mset df = mset df'"
  then show "next_slno df = next_slno df'" by (rule next_slno_perm)
next
  show "mset (map col_Sl_no (fst (append_to_excel lib (Some df) desc code price circ_date link)))
       = mset (map col_Sl_no df) + {#Some (next_slno df)#}"
    by (simp add: append_to_excel_def Let_def sort_and_format_df_image_slno)
next
  show "snd (append_to_excel lib (Some df) desc code price circ_date link) = int (length df) + 1"
    by (simp add: append_to_excel_def Let_def sort_and_format_df_length)
next
  have "length (fst (append_to_excel lib None desc code price circ_date link)) = 1"
    by (simp add: append_to_excel_def Let_def sort_and_format_df_length)
  moreover have "mset (map col_Sl_no (fst (append_to_excel lib None desc code price circ_date link)))
                  = {#Some 1#}"
    by (simp add: append_to_excel_def Let_def sort_and_format_df_image_slno)
  ultimately show "map col_Sl_no (fst (append_to_excel lib None desc code price circ_date link)) = [Some 1]"
    by (cases "fst (append_to_excel lib None desc code price circ_date link)") auto
qed


theorem append_assigns_next_slno_witness:
  "example_row (Some 5) ''01-03-2024'' \<in> set ledger_125
   \<and> col_Sl_no (example_row (Some 5) ''01-03-2024'') = Some 5
   \<and> next_slno ledger_125 = Max {n. \<exists>x \<in> set ledger_125. col_Sl_no x = Some n} + 1
   \<and> 5 < next_slno ledger_125
   \<and> next_slno ledger_125 = 6
   \<and> mset ledger_125 = mset (rev ledger_125)
   \<and> next_slno ledger_125 = next_slno (rev ledger_125)
   \<and> list_all (\<lambda>r. col_Sl_no r = None) []
   \<and> next_slno [] = 1
   \<and> map col_Sl_no
        (fst (append_to_excel example_pandas (Some ledger_125) (latin1 ''ALUMINIUM INGOT'') ''IE07''
                (Finite 268.25) ''05-06-2024'' ''https://nalcoindia.com/c/Ingot-05-06-2024.pdf''))
       = [Some 6, Some 5, Some 1, Some 2]"
proof -
  let ?r = "example_row (Some 5) ''01-03-2024''"
  have a: "?r \<in> set ledger_125"
    by (simp add: ledger_125_def)
  have b: "col_Sl_no ?r = Some 5"
    by (simp add: example_row_def)
  have c: "mset ledger_125 = mset (rev ledger_125)"
    by simp
  have d: "list_all (\<lambda>r. col_Sl_no r = None) []"
    by simp
  have e: "next_slno ledger_125 = 6"
    by code_simp
  have f: "map col_Sl_no
        (fst (append_to_excel example_pandas (Some ledger_125) (latin1 ''ALUMINIUM INGOT'') ''IE07''
                (Finite 268.25) ''05-06-2024'' ''https://nalcoindia.com/c/Ingot-05-06-2024.pdf''))
       = [Some 6, Some 5, Some 1, Some 2]"
    by code_simp
  from append_assigns_next_slno [of ledger_125 ?r 5 "rev ledger_125"] a b c
  have 1: "next_slno ledger_125 = Max {n. \<exists>x \<in> set ledger_125. col_Sl_no x = Some n} + 1"
    and 2: "5 < next_slno ledger_125"
    and 3: "next_slno ledger_125 = next_slno (rev ledger_125)"
    by blast+
  from append_assigns_next_slno [of "[]"] d have 4: "next_slno [] = 1"
    by blast
  from a b 1 2 e c 3 d 4 f show ?thesis
    by (intro conjI)
qed

lemma row_key_le_display:
  assumes "row_key a \<le> row_key b"
  shows "spec_display_order a b"
  using assms
  by (auto simp: row_key_def date_key_def slno_key_def spec_display_order_def date_before_def
      slno_le_def less_eq_prod_def split: option.splits)

lemma row_key_eq_iff:
  "row_key a = row_key b \<longleftrightarrow> fst a = fst b \<and> col_Sl_no (snd a) = col_Sl_no (snd b)"
  by (auto simp: row_key_def date_key_def slno_key_def split: option.splits)

lemma sort_values_sorted: "sorted_wrt spec_display_order (sort_values kdf)"
proof -
  have "sorted (map row_key (sort_key row_key kdf))"
    by (rule sorted_sort_key)
  then have "sorted_wrt (\<lambda>a b. row_key a \<le> row_key b) (sort_key row_key kdf)"
    by (simp add: sorted_map)
  then show ?thesis
    unfolding sort_values_def
    by (rule sorted_wrt_mono_rel [rotated]) (rule row_key_le_display)
qed

lemma sort_values_stable:
  "filter (\<lambda>dr. fst dr = d \<and> col_Sl_no (snd dr) = n) (sort_values kdf)
     = filter (\<lambda>dr. fst dr = d \<and> col_Sl_no (snd dr) = n) kdf"
proof -
  define x :: "int option \<times> ledger_row" where
    "x = (d, \<lparr>col_Sl_no = n, col_Description = None, col_Product_Code = None,
               col_Basic_Price = NaN, col_Circular_Date = None, col_Circular_Link = None\<rparr>)"
  have p: "(\<lambda>dr. fst dr = d \<and> col_Sl_no (snd dr) = n) = (\<lambda>dr. row_key dr = row_key x)"
    by (auto simp: row_key_eq_iff x_def)
  show ?thesis
    unfolding p sort_values_def by (rule sort_key_stable)
qed

text \<open>
  C8: every save writes the rows as \<open>sort_and_format_df\<close> orders them, and that order is
  the display order of the specification on the dates as parsed for the sort: date
  descending, ties by sequence number ascending. The sort is a permutation of the rows and
  is stable: rows of one date and one number keep their relative order.
\<close>

theorem saved_rows_display_order:
  "sorted_wrt spec_display_order (sort_values (assign_date lib df))
   \<and> mset (sort_values (assign_date lib df)) = mset (assign_date lib df)
   \<and> (\<forall>d n. filter (\<lambda>dr. fst dr = d \<and> col_Sl_no (snd dr) = n) (sort_values (assign_date lib df))
              = filter (\<lambda>dr. fst dr = d \<and> col_Sl_no (snd dr) = n) (assign_date lib df))
   \<and> map col_Sl_no (sort_and_format_df lib df)
       = map (\<lambda>dr. col_Sl_no (snd dr)) (sort_values (assign_date lib df))
   \<and> fst (append_to_excel lib file desc code price circ_date link)
       = sort_and_format_df lib
           ((case file of Some rows \<Rightarrow> rows | None \<Rightarrow> []) @
            [\<lparr>col_Sl_no = Some (case file of Some rows \<Rightarrow> next_slno rows | None \<Rightarrow> 1),
              col_Description = Some desc, col_Product_Code = Some code, col_Basic_Price = price,
              col_Circular_Date = Some circ_date, col_Circular_Link = Some link\<rparr>])"
proof (intro conjI allI)
  show "sorted_wrt spec_display_order (sort_values (assign_date lib df))"
    by (rule sort_values_sorted)
  show "mset (sort_values (assign_date lib df)) = mset (assign_date lib df)"
    by (rule sort_values_mset)
  show "filter (\<lambda>dr. fst dr = d \<and> col_Sl_no (snd dr) = n) (sort_values (assign_date lib df))
              = filter (\<lambda>dr. fst dr = d \<and> col_Sl_no (snd dr) = n) (assign_date lib df)" for d n
    by (rule sort_values_stable)
  show "map col_Sl_no (sort_and_format_df lib df)
       = map (\<lambda>dr. col_Sl_no (snd dr)) (sort_values (assign_date lib df))"
    by (rule sort_and_format_df_slno)
  show "fst (append_to_excel lib file desc code price circ_date link)
       = sort_and_format_df lib
           ((case file of Some rows \<Rightarrow> rows | None \<Rightarrow> []) @
            [\<lparr>col_Sl_no = Some (case file of Some rows \<Rightarrow> next_slno rows | None \<Rightarrow> 1),
              col_Description = Some desc, col_Product_Code = Some code, col_Basic_Price = price,
              col_Circular_Date = Some circ_date, col_Circular_Link = Some link\<rparr>])"
    by (simp add: append_to_excel_def Let_def)
qed

theorem saved_rows_display_order_witness:
  "sorted_wrt spec_display_order (sort_values (assign_date example_pandas ledger_tie))
   \<and> sort_values (assign_date example_pandas ledger_tie)
       = [(Some 20240605, example_row (Some 3) ''05-06-2024''),
          (Some 20240605, example_row (Some 7) ''05-06-2024'')]
   \<and> map col_Sl_no (sort_and_format_df example_pandas ledger_tie) = [Some 3, Some 7]
   \<and> map col_Sl_no (sort_and_format_df example_pandas (ledger_125 @ ledger_tie))
       = [Some 3, Some 7, Some 5, Some 1, Some 2]"
proof -
  have a: "sort_values (assign_date example_pandas ledger_tie)
       = [(Some 20240605, example_row (Some 3) ''05-06-2024''),
          (Some 20240605, example_row (Some 7) ''05-06-2024'')]"
    by code_simp
  have b: "map col_Sl_no (sort_and_format_df example_pandas (ledger_125 @ ledger_tie))
       = [Some 3, Some 7, Some 5, Some 1, Some 2]"
    by code_simp
  from saved_rows_display_order [of example_pandas ledger_tie]
  have 1: "sorted_wrt spec_display_order (sort_values (assign_date example_pandas ledger_tie))"
    and 2: "map col_Sl_no (sort_and_format_df example_pandas ledger_tie)
       = map (\<lambda>dr. col_Sl_no (snd dr)) (sort_values (assign_date example_pandas ledger_tie))"
    by blast+
  from 2 have 3: "map col_Sl_no (sort_and_format_df example_pandas ledger_tie) = [Some 3, Some 7]"
    unfolding a by (simp add: example_row_def)
  from 1 a 3 b show ?thesis
    by (intro conjI)
qed

subsection \<open>Orchestrator\<close>

lemma download_pdf_frame:
  assumes "download_pdf e url w = (res, w')"
  shows "LOG_FILE w' = LOG_FILE w \<and> EXCEL_FILE w' = EXCEL_FILE w \<and> RUNLOG_FILE w' = RUNLOG_FILE w"
  using assms
  by (auto simp: download_pdf_def Let_def split: sum.splits if_splits)

lemma download_pdf_ok:
  assumes "download_pdf e url w = (Inr filename, w')"
  shows "\<exists>r. requests_get e url = Inr r \<and> \<not> (400 \<le> status_code r \<and> status_code r < 600)
           \<and> contains ''application/pdf''
                (lower (case header_Content_Type r of Some v \<Rightarrow> v | None \<Rightarrow> []))"
  using assms
  by (auto simp: download_pdf_def Let_def split: sum.splits if_splits)

lemma download_pdf_refused:
  assumes "requests_get e url = Inr r"
    and "(400 \<le> status_code r \<and> status_code r < 600)
         \<or> \<not> contains ''application/pdf''
               (lower (case header_Content_Type r of Some v \<Rightarrow> v | None \<Rightarrow> []))"
  shows "\<exists>err. fst (download_pdf e url w) = Inl err"
  using assms
  by (auto simp: download_pdf_def Let_def split: sum.splits if_splits)

lemma process_pdf_raised:
  assumes "process_pdf e url filename w = (Raised err, w')"
  shows "w' = write_last_url url w"
  using assms
  by (auto simp: process_pdf_def Let_def split: sum.splits option.splits)

lemma process_pdf_returned:
  assumes "process_pdf e url filename w = (Returned, w')"
  shows "LOG_FILE w' = Some url
         \<and> (\<exists>entry. RUNLOG_FILE w' = Some (append_runlog (RUNLOG_FILE w) entry)
                \<and> Status entry = ''UPDATED'' \<and> Chosen_URL entry = url)"
  using assms
  by (auto simp: process_pdf_def Let_def write_last_url_def log_row_def split: sum.splits option.splits)

lemma process_pdf_marker:
  "LOG_FILE (snd (process_pdf e url filename w)) = Some url"
  by (auto simp: process_pdf_def Let_def write_last_url_def split: sum.splits option.splits)

lemma process_pdf_no_exit:
  "fst (process_pdf e url filename w) \<noteq> SysExit n"
  by (auto simp: process_pdf_def Let_def split: sum.splits option.splits)

text \<open>The three ways a run goes once a URL is chosen.\<close>

lemma main_chosen:
  assumes "get_html e = Inr soup" "find_ingots_pdf_url (lib_urljoin e) soup = Some u" "u \<noteq> []"
  shows "main e w =
           (let w1 = w\<lparr>http_requests := http_requests w @ [NALCO_URL]\<rparr> in
            if u = read_last_url w
            then (Returned, w1\<lparr>RUNLOG_FILE := Some (append_runlog (RUNLOG_FILE w) (skip_entry e u))\<rparr>)
            else (case download_pdf e u w1 of
                    (Inl err, w2) \<Rightarrow> (Raised err, w2)
                  | (Inr filename, w2) \<Rightarrow> process_pdf e u filename w2))"
  using assms by (simp add: main_def Let_def read_last_url_def)

lemma main_raised_log:
  assumes "main e w = (Raised err, w')"
  shows "RUNLOG_FILE w' = RUNLOG_FILE w"
proof (cases "get_html e")
  case (Inl a)
  with assms show ?thesis by (auto simp: main_def Let_def)
next
  case (Inr soup)
  show ?thesis
  proof (cases "find_ingots_pdf_url (lib_urljoin e) soup = None
                \<or> find_ingots_pdf_url (lib_urljoin e) soup = Some []")
    case True
    with assms Inr show ?thesis by (auto simp: main_def Let_def no_pdf_link_def)
  next
    case False
    then obtain u where u: "find_ingots_pdf_url (lib_urljoin e) soup = Some u" "u \<noteq> []"
      by auto
    let ?w1 = "w\<lparr>http_requests := http_requests w @ [NALCO_URL]\<rparr>"
    note m = main_chosen [OF Inr u, of w]
    show ?thesis
    proof (cases "u = read_last_url w")
      case True
      with assms m show ?thesis by (simp add: Let_def)
    next
      case False
      obtain res w2 where d: "download_pdf e u ?w1 = (res, w2)" by (cases "download_pdf e u ?w1")
      from download_pdf_frame [OF d] have f: "RUNLOG_FILE w2 = RUNLOG_FILE w" by simp
      show ?thesis
      proof (cases res)
        case (Inl a)
        with assms m False d f show ?thesis by (simp add: Let_def)
      next
        case (Inr filename)
        with assms m False d have "process_pdf e u filename w2 = (Raised err, w')"
          by (simp add: Let_def)
        from process_pdf_raised [OF this] f show ?thesis
          by (simp add: write_last_url_def)
      qed
    qed
  qed
qed

lemma main_returned:
  assumes "get_html e = Inr soup" "find_ingots_pdf_url (lib_urljoin e) soup = Some u" "u \<noteq> []"
    and "main e w = (Returned, w')"
  shows "(\<exists>entry. RUNLOG_FILE w' = Some (append_runlog (RUNLOG_FILE w) entry) \<and> Chosen_URL entry = u)
         \<and> (read_last_url w' = u \<or> read_last_url w' = strip u)"
proof -
  let ?w1 = "w\<lparr>http_requests := http_requests w @ [NALCO_URL]\<rparr>"
  note m = main_chosen [OF assms(1-3), of w]
  show ?thesis
  proof (cases "u = read_last_url w")
    case True
    with assms(4) m
    have w': "w' = ?w1\<lparr>RUNLOG_FILE := Some (append_runlog (RUNLOG_FILE w) (skip_entry e u))\<rparr>"
      by (simp add: Let_def)
    have "Chosen_URL (skip_entry e u) = u" by (simp add: skip_entry_def log_row_def)
    moreover have "read_last_url w' = u" using True by (simp add: w' read_last_url_def)
    ultimately show ?thesis by (auto simp: w')
  next
    case False
    obtain res w2 where d: "download_pdf e u ?w1 = (res, w2)" by (cases "download_pdf e u ?w1")
    from download_pdf_frame [OF d] have f: "RUNLOG_FILE w2 = RUNLOG_FILE w" by simp
    show ?thesis
    proof (cases res)
      case (Inl a)
      with assms(4) m False d show ?thesis by (simp add: Let_def)
    next
      case (Inr filename)
      with assms(4) m False d have "process_pdf e u filename w2 = (Returned, w')"
        by (simp add: Let_def)
      from process_pdf_returned [OF this] f show ?thesis
        by (auto simp: read_last_url_def)
    qed
  qed
qed

text \<open>
  C2, as stated, fails: no path of \<open>main\<close> writes to the run log when an exception ends
  the run. With a URL chosen, a download answered 404, a PDF without the code and a price
  that does not parse each end the run with the exception and a run log that does not
  exist, as before the run.
\<close>

theorem fatal_runs_leave_no_entry:
  "find_ingots_pdf_url example_urljoin page_strict = Some ''https://nalcoindia.com/c/prices.pdf''
   \<and> fst (main env_404 world_empty) = Raised (HTTPError 404)
   \<and> RUNLOG_FILE (snd (main env_404 world_empty)) = None
   \<and> fst (main env_no_ie07 world_empty)
       = Raised (RuntimeError ''Could not find a row with Product Code IE07 in the PDF.'')
   \<and> RUNLOG_FILE (snd (main env_no_ie07 world_empty)) = None
   \<and> fst (main env_bad_price world_empty) = Raised (RuntimeError ''Could not parse numeric price'')
   \<and> RUNLOG_FILE (snd (main env_bad_price world_empty)) = None"
  by code_simp

text \<open>
  C2, amended: a run that an exception ends leaves the run log as it found it, whether or
  not a URL had been chosen; a run that returns after a URL was chosen has appended exactly
  one entry, which carries the chosen URL.
\<close>

theorem fatal_run_log_unchanged:
  "(main e w = (Raised err, w') \<longrightarrow> RUNLOG_FILE w' = RUNLOG_FILE w)
   \<and> (get_html e = Inr soup \<and> find_ingots_pdf_url (lib_urljoin e) soup = Some u \<and> u \<noteq> []
        \<and> main e w = (Returned, w')
      \<longrightarrow> (\<exists>entry. RUNLOG_FILE w' = Some (append_runlog (RUNLOG_FILE w) entry) \<and> Chosen_URL entry = u))"
  using main_raised_log main_returned by blast

theorem fatal_run_log_unchanged_witness:
  "main env_html world_empty
     = (Raised (RuntimeError ''Expected PDF but got another Content-Type''),
        world_empty\<lparr>http_requests := [NALCO_URL, ''https://nalcoindia.com/c/prices.pdf'']\<rparr>)
   \<and> RUNLOG_FILE (world_empty\<lparr>http_requests := [NALCO_URL, ''https://nalcoindia.com/c/prices.pdf'']\<rparr>)
       = RUNLOG_FILE world_empty
   \<and> get_html env_ok = Inr page_strict
   \<and> find_ingots_pdf_url (lib_urljoin env_ok) page_strict = Some ''https://nalcoindia.com/c/prices.pdf''
   \<and> fst (main env_ok world_empty) = Returned
   \<and> (\<exists>entry. RUNLOG_FILE (snd (main env_ok world_empty))
                  = Some (append_runlog (RUNLOG_FILE world_empty) entry)
               \<and> Chosen_URL entry = ''https://nalcoindia.com/c/prices.pdf'')"
proof -
  let ?u = "''https://nalcoindia.com/c/prices.pdf''"
  let ?w = "world_empty\<lparr>http_requests := [NALCO_URL, ?u]\<rparr>"
  have a: "main env_html world_empty
     = (Raised (RuntimeError ''Expected PDF but got another Content-Type''), ?w)"
    by code_simp
  have b: "get_html env_ok = Inr page_strict"
    by (simp add: env_ok_def)
  have c: "find_ingots_pdf_url (lib_urljoin env_ok) page_strict = Some ?u"
    by code_simp
  have d: "fst (main env_ok world_empty) = Returned"
    by code_simp
  then have d': "main env_ok world_empty = (Returned, snd (main env_ok world_empty))"
    by (metis prod.collapse)
  from fatal_run_log_unchanged [of env_html world_empty _ ?w] a
  have 1: "RUNLOG_FILE ?w = RUNLOG_FILE world_empty"
    by blast
  from fatal_run_log_unchanged [of env_ok world_empty _ "snd (main env_ok world_empty)" page_strict ?u]
    b c d'
  have 2: "\<exists>entry. RUNLOG_FILE (snd (main env_ok world_empty))
                  = Some (append_runlog (RUNLOG_FILE world_empty) entry)
               \<and> Chosen_URL entry = ?u"
    by simp
  from a 1 b c d 2 show ?thesis
    by (intro conjI)
qed

lemma main_skip:
  assumes "get_html e = Inr soup" "find_ingots_pdf_url (lib_urljoin e) soup = Some u" "u \<noteq> []"
    and "read_last_url w = u"
  shows "main e w =
           (Returned,
            w\<lparr>http_requests := http_requests w @ [NALCO_URL],
              RUNLOG_FILE := Some (append_runlog (RUNLOG_FILE w) (skip_entry e u))\<rparr>)"
  using assms(4) main_chosen [OF assms(1-3), of w] by (simp add: Let_def)

text \<open>
  C3: when the located URL equals the stored last-processed URL, the run returns with one
  entry appended to the run log, of status SKIPPED with 0 rows appended and the URL; the
  only request sent is the one for the page, and the ledger, the marker and the saved PDFs
  are as before. Hence, after a run that returned (an update or a skip) for a URL without
  surrounding white space, a second run with the same locator output is such a skip.
\<close>

theorem unchanged_url_is_skipped:
  assumes "get_html e = Inr soup" "find_ingots_pdf_url (lib_urljoin e) soup = Some u" "u \<noteq> []"
  shows "(read_last_url w = u \<longrightarrow>
            main e w =
              (Returned,
               w\<lparr>http_requests := http_requests w @ [NALCO_URL],
                 RUNLOG_FILE := Some (append_runlog (RUNLOG_FILE w) (skip_entry e u))\<rparr>)
            \<and> EXCEL_FILE (snd (main e w)) = EXCEL_FILE w
            \<and> LOG_FILE (snd (main e w)) = LOG_FILE w
            \<and> PDF_DIR (snd (main e w)) = PDF_DIR w
            \<and> http_requests (snd (main e w)) = http_requests w @ [NALCO_URL])
       \<and> Status (skip_entry e u) = ''SKIPPED'' \<and> Rows_Appended (skip_entry e u) = 0
       \<and> Chosen_URL (skip_entry e u) = u
       \<and> (strip u = u \<and> main e w0 = (Returned, w1) \<longrightarrow>
            main e w1 =
              (Returned,
               w1\<lparr>http_requests := http_requests w1 @ [NALCO_URL],
                  RUNLOG_FILE := Some (append_runlog (RUNLOG_FILE w1) (skip_entry e u))\<rparr>)
            \<and> EXCEL_FILE (snd (main e w1)) = EXCEL_FILE w1
            \<and> LOG_FILE (snd (main e w1)) = LOG_FILE w1)"
proof (intro conjI impI)
  assume r: "read_last_url w = u"
  note m = main_skip [OF assms r]
  show "main e w =
              (Returned,
               w\<lparr>http_requests := http_requests w @ [NALCO_URL],
                 RUNLOG_FILE := Some (append_runlog (RUNLOG_FILE w) (skip_entry e u))\<rparr>)"
    by (rule m)
  show "EXCEL_FILE (snd (main e w)) = EXCEL_FILE w" by (simp add: m)
  show "LOG_FILE (snd (main e w)) = LOG_FILE w" by (simp add: m)
  show "PDF_DIR (snd (main e w)) = PDF_DIR w" by (simp add: m)
  show "http_requests (snd (main e w)) = http_requests w @ [NALCO_URL]" by (simp add: m)
next
  show "Status (skip_entry e u) = ''SKIPPED''" by (simp add: skip_entry_def log_row_def)
  show "Rows_Appended (skip_entry e u) = 0" by (simp add: skip_entry_def log_row_def)
  show "Chosen_URL (skip_entry e u) = u" by (simp add: skip_entry_def log_row_def)
next
  assume a: "strip u = u \<and> main e w0 = (Returned, w1)"
  then have "main e w0 = (Returned, w1)" by simp
  from main_returned [OF assms this] a have r: "read_last_url w1 = u" by auto
  note m = main_skip [OF assms r]
  show "main e w1 =
              (Returned,
               w1\<lparr>http_requests := http_requests w1 @ [NALCO_URL],
                  RUNLOG_FILE := Some (append_runlog (RUNLOG_FILE w1) (skip_entry e u))\<rparr>)"
    by (rule m)
  show "EXCEL_FILE (snd (main e w1)) = EXCEL_FILE w1" by (simp add: m)
  show "LOG_FILE (snd (main e w1)) = LOG_FILE w1" by (simp add: m)
qed

theorem unchanged_url_is_skipped_witness:
  "get_html env_ok = Inr page_strict
   \<and> find_ingots_pdf_url (lib_urljoin env_ok) page_strict = Some ''https://nalcoindia.com/c/prices.pdf''
   \<and> strip ''https://nalcoindia.com/c/prices.pdf'' = ''https://nalcoindia.com/c/prices.pdf''
   \<and> fst (main env_ok world_empty) = Returned
   \<and> read_last_url (snd (main env_ok world_empty)) = ''https://nalcoindia.com/c/prices.pdf''
   \<and> main env_ok (snd (main env_ok world_empty))
       = (Returned,
          (snd (main env_ok world_empty))
            \<lparr>http_requests := http_requests (snd (main env_ok world_empty)) @ [NALCO_URL],
             RUNLOG_FILE := Some (append_runlog (RUNLOG_FILE (snd (main env_ok world_empty)))
                                   (skip_entry env_ok ''https://nalcoindia.com/c/prices.pdf''))\<rparr>)
   \<and> EXCEL_FILE (snd (main env_ok (snd (main env_ok world_empty))))
       = EXCEL_FILE (snd (main env_ok world_empty))
   \<and> map Status (the (RUNLOG_FILE (snd (main env_ok (snd (main env_ok world_empty))))))
       = [''UPDATED'', ''SKIPPED'']"
proof -
  let ?u = "''https://nalcoindia.com/c/prices.pdf''"
  let ?w1 = "snd (main env_ok world_empty)"
  have a: "get_html env_ok = Inr page_strict"
    by (simp add: env_ok_def)
  have b: "find_ingots_pdf_url (lib_urljoin env_ok) page_strict = Some ?u"
    by code_simp
  have c: "?u \<noteq> []"
    by simp
  have s: "strip ?u = ?u"
    by code_simp
  have d: "fst (main env_ok world_empty) = Returned"
    by code_simp
  then have d': "main env_ok world_empty = (Returned, ?w1)"
    by (metis prod.collapse)
  have r: "read_last_url ?w1 = ?u"
    by code_simp
  have l: "map Status (the (RUNLOG_FILE (snd (main env_ok ?w1)))) = [''UPDATED'', ''SKIPPED'']"
    by code_simp
  note t = unchanged_url_is_skipped [OF a b c, of ?w1 world_empty ?w1]
  from t s d'
  have 1: "main env_ok ?w1
       = (Returned,
          ?w1\<lparr>http_requests := http_requests ?w1 @ [NALCO_URL],
               RUNLOG_FILE := Some (append_runlog (RUNLOG_FILE ?w1) (skip_entry env_ok ?u))\<rparr>)"
    and 2: "EXCEL_FILE (snd (main env_ok ?w1)) = EXCEL_FILE ?w1"
    by blast+
  from a b s d r 1 2 l show ?thesis
    by (intro conjI)
qed

lemma main_marker:
  assumes "main e w = (out, w')"
  shows "LOG_FILE w' = LOG_FILE w
         \<or> (\<exists>soup u filename w1 w2. get_html e = Inr soup
               \<and> find_ingots_pdf_url (lib_urljoin e) soup = Some u
               \<and> download_pdf e u w1 = (Inr filename, w2) \<and> LOG_FILE w' = Some u)"
proof (cases "get_html e")
  case (Inl a)
  with assms show ?thesis by (auto simp: main_def Let_def)
next
  case (Inr soup)
  show ?thesis
  proof (cases "find_ingots_pdf_url (lib_urljoin e) soup = None
                \<or> find_ingots_pdf_url (lib_urljoin e) soup = Some []")
    case True
    with assms Inr show ?thesis by (auto simp: main_def Let_def no_pdf_link_def)
  next
    case False
    then obtain u where u: "find_ingots_pdf_url (lib_urljoin e) soup = Some u" "u \<noteq> []"
      by auto
    let ?w1 = "w\<lparr>http_requests := http_requests w @ [NALCO_URL]\<rparr>"
    note m = main_chosen [OF Inr u, of w]
    show ?thesis
    proof (cases "u = read_last_url w")
      case True
      with assms m show ?thesis by (auto simp: Let_def)
    next
      case False
      obtain res w2 where d: "download_pdf e u ?w1 = (res, w2)" by (cases "download_pdf e u ?w1")
      from download_pdf_frame [OF d] have f: "LOG_FILE w2 = LOG_FILE w" by simp
      show ?thesis
      proof (cases res)
        case (Inl a)
        with assms m False d f show ?thesis by (auto simp: Let_def)
      next
        case (Inr filename)
        with assms m False d have p: "process_pdf e u filename w2 = (out, w')"
          by (simp add: Let_def)
        from process_pdf_marker [of e u filename w2] p have "LOG_FILE w' = Some u" by simp
        with \<open>get_html e = Inr soup\<close> u(1) d Inr show ?thesis by blast
      qed
    qed
  qed
qed

lemma main_download_refused:
  assumes "get_html e = Inr soup" "find_ingots_pdf_url (lib_urljoin e) soup = Some u" "u \<noteq> []"
    and "u \<noteq> read_last_url w"
    and "fst (download_pdf e u (w\<lparr>http_requests := http_requests w @ [NALCO_URL]\<rparr>)) = Inl err"
  shows "fst (main e w) = Raised err \<and> LOG_FILE (snd (main e w)) = LOG_FILE w
         \<and> EXCEL_FILE (snd (main e w)) = EXCEL_FILE w \<and> RUNLOG_FILE (snd (main e w)) = RUNLOG_FILE w"
proof -
  let ?w1 = "w\<lparr>http_requests := http_requests w @ [NALCO_URL]\<rparr>"
  obtain res w2 where d: "download_pdf e u ?w1 = (res, w2)" by (cases "download_pdf e u ?w1")
  with assms(5) have res: "res = Inl err" by simp
  from download_pdf_frame [OF d]
  have f: "LOG_FILE w2 = LOG_FILE w" "EXCEL_FILE w2 = EXCEL_FILE w" "RUNLOG_FILE w2 = RUNLOG_FILE w"
    by simp_all
  from main_chosen [OF assms(1-3), of w] assms(4) d res have "main e w = (Raised err, w2)"
    by (simp add: Let_def)
  with f show ?thesis by simp
qed

text \<open>
  C9: a run changes the marker only by writing the chosen URL after \<open>download_pdf\<close> has
  returned a file, which needs a response whose status is not an error status (400 to 599)
  and whose Content-Type, lower-cased, contains \<open>application/pdf\<close>. When the response to the
  download has an error status or another content type, or the request itself fails, the
  run ends with an exception and the marker, the ledger and the run log are unchanged.
\<close>

theorem marker_written_after_pdf_download:
  "(main e w = (out, w') \<and> LOG_FILE w' \<noteq> LOG_FILE w \<longrightarrow>
      (\<exists>soup u r. get_html e = Inr soup \<and> find_ingots_pdf_url (lib_urljoin e) soup = Some u
         \<and> LOG_FILE w' = Some u \<and> requests_get e u = Inr r
         \<and> \<not> (400 \<le> status_code r \<and> status_code r < 600)
         \<and> contains ''application/pdf''
              (lower (case header_Content_Type r of Some v \<Rightarrow> v | None \<Rightarrow> []))))
   \<and> (get_html e = Inr soup \<and> find_ingots_pdf_url (lib_urljoin e) soup = Some u \<and> u \<noteq> []
        \<and> u \<noteq> read_last_url w
        \<and> (requests_get e u = Inl err
            \<or> (requests_get e u = Inr r
                \<and> ((400 \<le> status_code r \<and> status_code r < 600)
                   \<or> \<not> contains ''application/pdf''
                         (lower (case header_Content_Type r of Some v \<Rightarrow> v | None \<Rightarrow> [])))))
      \<longrightarrow> (\<exists>err'. fst (main e w) = Raised err')
          \<and> LOG_FILE (snd (main e w)) = LOG_FILE w
          \<and> EXCEL_FILE (snd (main e w)) = EXCEL_FILE w
          \<and> RUNLOG_FILE (snd (main e w)) = RUNLOG_FILE w)"
proof (rule conjI; rule impI)
  assume a: "main e w = (out, w') \<and> LOG_FILE w' \<noteq> LOG_FILE w"
  with main_marker [of e w out w'] obtain soup u filename w1 w2 where
    s: "get_html e = Inr soup" "find_ingots_pdf_url (lib_urljoin e) soup = Some u"
    and d: "download_pdf e u w1 = (Inr filename, w2)" and l: "LOG_FILE w' = Some u"
    by blast
  from download_pdf_ok [OF d] obtain r where
    "requests_get e u = Inr r" "\<not> (400 \<le> status_code r \<and> status_code r < 600)"
    "contains ''application/pdf'' (lower (case header_Content_Type r of Some v \<Rightarrow> v | None \<Rightarrow> []))"
    by blast
  with s l show "\<exists>soup u r. get_html e = Inr soup \<and> find_ingots_pdf_url (lib_urljoin e) soup = Some u
         \<and> LOG_FILE w' = Some u \<and> requests_get e u = Inr r
         \<and> \<not> (400 \<le> status_code r \<and> status_code r < 600)
         \<and> contains ''application/pdf''
              (lower (case header_Content_Type r of Some v \<Rightarrow> v | None \<Rightarrow> []))"
    by blast
next
  let ?w1 = "w\<lparr>http_requests := http_requests w @ [NALCO_URL]\<rparr>"
  assume a: "get_html e = Inr soup \<and> find_ingots_pdf_url (lib_urljoin e) soup = Some u \<and> u \<noteq> []
        \<and> u \<noteq> read_last_url w
        \<and> (requests_get e u = Inl err
            \<or> (requests_get e u = Inr r
                \<and> ((400 \<le> status_code r \<and> status_code r < 600)
                   \<or> \<not> contains ''application/pdf''
                         (lower (case header_Content_Type r of Some v \<Rightarrow> v | None \<Rightarrow> [])))))"
  then consider
      (failed) "requests_get e u = Inl err"
    | (refused) "requests_get e u = Inr r"
        "(400 \<le> status_code r \<and> status_code r < 600)
         \<or> \<not> contains ''application/pdf''
               (lower (case header_Content_Type r of Some v \<Rightarrow> v | None \<Rightarrow> []))"
    by blast
  then have "\<exists>err'. fst (download_pdf e u ?w1) = Inl err'"
  proof cases
    case failed
    then show ?thesis by (simp add: download_pdf_def Let_def)
  next
    case refused
    then show ?thesis by (rule download_pdf_refused)
  qed
  then obtain err' where "fst (download_pdf e u ?w1) = Inl err'" ..
  with a main_download_refused [of e soup u w err']
  show "(\<exists>err'. fst (main e w) = Raised err')
          \<and> LOG_FILE (snd (main e w)) = LOG_FILE w
          \<and> EXCEL_FILE (snd (main e w)) = EXCEL_FILE w
          \<and> RUNLOG_FILE (snd (main e w)) = RUNLOG_FILE w"
    by blast
qed

theorem marker_written_after_pdf_download_witness:
  "LOG_FILE (snd (main env_ok world_empty)) \<noteq> LOG_FILE world_empty
   \<and> (\<exists>soup u r. get_html env_ok = Inr soup
         \<and> find_ingots_pdf_url (lib_urljoin env_ok) soup = Some u
         \<and> LOG_FILE (snd (main env_ok world_empty)) = Some u \<and> requests_get env_ok u = Inr r
         \<and> \<not> (400 \<le> status_code r \<and> status_code r < 600)
         \<and> contains ''application/pdf''
              (lower (case header_Content_Type r of Some v \<Rightarrow> v | None \<Rightarrow> [])))
   \<and> get_html env_html = Inr page_strict
   \<and> find_ingots_pdf_url (lib_urljoin env_html) page_strict = Some ''https://nalcoindia.com/c/prices.pdf''
   \<and> ''https://nalcoindia.com/c/prices.pdf'' \<noteq> read_last_url world_empty
   \<and> requests_get env_html ''https://nalcoindia.com/c/prices.pdf''
       = Inr (example_response 200 ''text/html; charset=utf-8'' ''https://nalcoindia.com/c/prices.pdf'')
   \<and> \<not> contains ''application/pdf'' (lower ''text/html; charset=utf-8'')
   \<and> (\<exists>err'. fst (main env_html world_empty) = Raised err')
   \<and> LOG_FILE (snd (main env_html world_empty)) = LOG_FILE world_empty"
proof -
  let ?u = "''https://nalcoindia.com/c/prices.pdf''"
  let ?r = "example_response 200 ''text/html; charset=utf-8'' ?u"
  have a: "LOG_FILE (snd (main env_ok world_empty)) \<noteq> LOG_FILE world_empty"
    by code_simp
  have b: "get_html env_html = Inr page_strict"
    by (simp add: env_html_def env_ok_def)
  have c: "find_ingots_pdf_url (lib_urljoin env_html) page_strict = Some ?u"
    by code_simp
  have d: "?u \<noteq> read_last_url world_empty"
    by (simp add: read_last_url_def world_empty_def)
  have e: "requests_get env_html ?u = Inr ?r"
    by (simp add: env_html_def env_ok_def)
  have f: "\<not> contains ''application/pdf'' (lower ''text/html; charset=utf-8'')"
    by code_simp
  then have f': "\<not> contains ''application/pdf''
                    (lower (case header_Content_Type ?r of Some v \<Rightarrow> v | None \<Rightarrow> []))"
    by (simp add: example_response_def)
  from marker_written_after_pdf_download
         [of env_ok world_empty "fst (main env_ok world_empty)" "snd (main env_ok world_empty)"] a
  have 1: "\<exists>soup u r. get_html env_ok = Inr soup
         \<and> find_ingots_pdf_url (lib_urljoin env_ok) soup = Some u
         \<and> LOG_FILE (snd (main env_ok world_empty)) = Some u \<and> requests_get env_ok u = Inr r
         \<and> \<not> (400 \<le> status_code r \<and> status_code r < 600)
         \<and> contains ''application/pdf''
              (lower (case header_Content_Type r of Some v \<Rightarrow> v | None \<Rightarrow> []))"
    by simp
  from marker_written_after_pdf_download
         [of env_html world_empty _ _ page_strict ?u _ ?r] b c d e f'
  have 2: "\<exists>err'. fst (main env_html world_empty) = Raised err'"
    and 3: "LOG_FILE (snd (main env_html world_empty)) = LOG_FILE world_empty"
    by simp_all
  from a 1 b c d e f 2 3 show ?thesis
    by (intro conjI)
qed

subsection \<open>Numeric normalization\<close>

lemma pow2_powi: "pow2 e = 2 powi e"
  by (simp add: pow2_def power_int_def power_one_over)



lemma pow2_nat: "pow2 (int k) = 2 ^ k"
  by (simp add: pow2_powi)




















lemma digits_lower: "list_all (\<lambda>c. lower_char c = c) ''0123456789''"
  by code_simp

lemma is_digit_lower: "is_digit c \<Longrightarrow> lower_char c = c"
  using digits_lower unfolding is_digit_def list_all_iff by blast

lemma all_digits_lower: "all_digits s \<Longrightarrow> lower s = s"
  by (induction s) (auto simp: all_digits_def lower_def is_digit_lower)

















end
